theory Spec2Isabelle
  imports Complex_Main "HOL-Library.Multiset"
begin

section \<open>Rally Racing Manager: the race block of app.py\<close>

text \<open>
  The development embeds the "Start race!" block of \<^verbatim>\<open>src/app.py\<close> (tab 3): the
  read of the team-assigned cars, the per-car speed model, the ranking, the prize
  allocation and the settlement inside BEGIN / COMMIT / ROLLBACK.

  Numbers. Python's \<^verbatim>\<open>float\<close> values are modelled as exact rationals (\<open>rat\<close>):
  every finite float is a rational, and \<open>+\<close>, \<open>*\<close>, \<open>/\<close> are taken without the
  binary rounding of IEEE arithmetic. Comparisons, \<open>min\<close> and \<open>max\<close> are exact in
  both worlds. Python integers are \<open>int\<close>.

  Randomness. The three NumPy calls of the loop read the process-global generator; the
  model threads a generator state \<open>rng\<close> whose \<open>draws\<close> give the value each successive
  call returns. No assumption is made on the values drawn.

  Store. The Snowflake session behind \<^verbatim>\<open>run\<close> is not code of the repository; it is
  modelled as four tables with an explicit transaction snapshot, and every \<^verbatim>\<open>run\<close>
  call may raise, as decided by a fault schedule carried in the connection.
\<close>

subsection \<open>Tables (init_schema_if_missing) and in-memory rows\<close>

record team =
  TEAM_ID :: int
  TEAM_NAME :: string
  MEMBERS :: string
  BUDGET :: rat

record car =
  CAR_ID :: int
  CAR_NAME :: string
  TOP_SPEED_KMH :: rat
  ACCEL_0_100_S :: rat
  RELIABILITY :: rat
  HANDLING :: rat
  WEIGHT_KG :: rat
  CAR_TEAM_ID :: "int option"

text \<open>RACES; the column CREATED_AT is filled by the store and is left out.\<close>

record race =
  RACE_UID :: string
  TRACK_NAME :: string
  DISTANCE_KM :: rat
  FEE_USD :: rat
  PRIZE_POOL_USD :: rat

record race_result =
  RR_RACE_UID :: string
  RR_CAR_ID :: int
  RR_TEAM_ID :: int
  RR_FINISH_TIME_MIN :: rat
  RR_AVG_SPEED_KMH :: rat
  RR_POSITION :: int
  RR_PRIZE_USD :: rat

text \<open>A row of the query \<^verbatim>\<open>CARS C JOIN TEAMS T ON T.TEAM_ID = C.TEAM_ID\<close>.\<close>

record entry =
  E_CAR_ID :: int
  E_CAR_NAME :: string
  E_TOP_SPEED_KMH :: rat
  E_ACCEL_0_100_S :: rat
  E_RELIABILITY :: rat
  E_HANDLING :: rat
  E_WEIGHT_KG :: rat
  E_TEAM_ID :: int
  E_TEAM_NAME :: string

text \<open>
  A dict of the list \<^verbatim>\<open>results\<close>. The keys POSITION and PRIZE_USD are added by the
  later loops; until then the record holds 0 there, and nothing reads them before
  they are set.
\<close>

record result =
  R_CAR_ID :: int
  R_CAR_NAME :: string
  R_TEAM_ID :: int
  R_TEAM_NAME :: string
  AVG_SPEED_KMH :: rat
  FINISH_TIME_MIN :: rat
  POSITION :: int
  PRIZE_USD :: rat

record db =
  teams :: "team list"
  cars :: "car list"
  races :: "race list"
  race_results :: "race_result list"

subsection \<open>The session behind run\<close>

datatype exn = DatabaseError | IndexError

text \<open>
  What the block reports: \<open>NoEligibleParticipants\<close> is
  \<^verbatim>\<open>st.error("No cars assigned to teams.")\<close>, \<open>SettlementFailure\<close> is
  \<^verbatim>\<open>st.error(f"Failed to persist race: {e}")\<close>, and \<open>Uncaught\<close> is an exception that
  leaves the block.
\<close>

datatype error = NoEligibleParticipants | SettlementFailure | Uncaught exn

datatype stmt =
    BEGIN
  | COMMIT
  | ROLLBACK
  | INSERT_RACES race
  | INSERT_RACE_RESULTS race_result
  | UPDATE_TEAMS_BUDGET rat int

text \<open>
  \<open>store\<close> is what the session sees; \<open>snapshot\<close> is the state at BEGIN while a
  transaction is open; \<open>fault n\<close> says that the \<open>n\<close>-th statement issued on the
  connection raises; \<open>issued\<close> counts the statements issued so far.
\<close>

record conn =
  store :: db
  snapshot :: "db option"
  fault :: "nat \<Rightarrow> bool"
  issued :: nat

text \<open>What other sessions see: the state at BEGIN while a transaction is open.\<close>

definition committed :: "conn \<Rightarrow> db" where
  "committed c = (case snapshot c of None \<Rightarrow> store c | Some s \<Rightarrow> s)"

definition add_budget :: "rat \<Rightarrow> int \<Rightarrow> team \<Rightarrow> team" where
  "add_budget delta tid t =
     (if TEAM_ID t = tid then t\<lparr>BUDGET := BUDGET t + delta\<rparr> else t)"

fun exec :: "stmt \<Rightarrow> conn \<Rightarrow> conn" where
  "exec BEGIN c =
     (case snapshot c of None \<Rightarrow> c\<lparr>snapshot := Some (store c)\<rparr> | Some _ \<Rightarrow> c)"
| "exec COMMIT c = c\<lparr>snapshot := None\<rparr>"
| "exec ROLLBACK c =
     (case snapshot c of None \<Rightarrow> c | Some s \<Rightarrow> c\<lparr>store := s, snapshot := None\<rparr>)"
| "exec (INSERT_RACES r) c =
     c\<lparr>store := (store c)\<lparr>races := races (store c) @ [r]\<rparr>\<rparr>"
| "exec (INSERT_RACE_RESULTS r) c =
     c\<lparr>store := (store c)\<lparr>race_results := race_results (store c) @ [r]\<rparr>\<rparr>"
| "exec (UPDATE_TEAMS_BUDGET delta tid) c =
     c\<lparr>store := (store c)\<lparr>teams := map (add_budget delta tid) (teams (store c))\<rparr>\<rparr>"

text \<open>\<^verbatim>\<open>run(sql, params)\<close> with \<^verbatim>\<open>fetch=None\<close>: the statement takes effect, or it raises
  and has none.\<close>

definition run :: "stmt \<Rightarrow> conn \<Rightarrow> (exn + unit) \<times> conn" where
  "run s c =
     (if fault c (issued c) then (Inl DatabaseError, c\<lparr>issued := Suc (issued c)\<rparr>)
      else (Inr (), (exec s c)\<lparr>issued := Suc (issued c)\<rparr>))"

text \<open>The rows of the JOIN; SQL leaves their order open, the model takes the nested
  loop over CARS and TEAMS.\<close>

definition join_row :: "car \<Rightarrow> team \<Rightarrow> entry" where
  "join_row c t =
     \<lparr>E_CAR_ID = CAR_ID c, E_CAR_NAME = CAR_NAME c, E_TOP_SPEED_KMH = TOP_SPEED_KMH c,
      E_ACCEL_0_100_S = ACCEL_0_100_S c, E_RELIABILITY = RELIABILITY c,
      E_HANDLING = HANDLING c, E_WEIGHT_KG = WEIGHT_KG c,
      E_TEAM_ID = TEAM_ID t, E_TEAM_NAME = TEAM_NAME t\<rparr>"

definition select_cars_join_teams :: "db \<Rightarrow> entry list" where
  "select_cars_join_teams d =
     concat (map (\<lambda>c. map (join_row c)
       (filter (\<lambda>t. CAR_TEAM_ID c = Some (TEAM_ID t)) (teams d))) (cars d))"

text \<open>\<^verbatim>\<open>run(sql, fetch="all")\<close> for the query above.\<close>

definition run_select :: "conn \<Rightarrow> (exn + entry list) \<times> conn" where
  "run_select c =
     (if fault c (issued c) then (Inl DatabaseError, c\<lparr>issued := Suc (issued c)\<rparr>)
      else (Inr (select_cars_join_teams (store c)), c\<lparr>issued := Suc (issued c)\<rparr>))"

subsection \<open>Randomness and rounding\<close>

record rng =
  draws :: "nat \<Rightarrow> rat"
  consumed :: nat

text \<open>One call of \<^verbatim>\<open>np.random.normal\<close>, \<^verbatim>\<open>np.random.rand\<close> or \<^verbatim>\<open>np.random.uniform\<close>.\<close>

definition draw :: "rng \<Rightarrow> rat \<times> rng" where
  "draw g = (draws g (consumed g), g\<lparr>consumed := Suc (consumed g)\<rparr>)"

text \<open>Python's \<^verbatim>\<open>round(x, nd)\<close> on the exact value: to the nearest multiple of
  \<open>10 ^ -nd\<close>, a tie going to the even one.\<close>

definition round_half_even :: "rat \<Rightarrow> int" where
  "round_half_even x =
     (let f = floor x; d = x - of_int f
      in if d < 1 / 2 then f
         else if 1 / 2 < d then f + 1
         else if even f then f else f + 1)"

definition py_round :: "rat \<Rightarrow> nat \<Rightarrow> rat" where
  "py_round x nd = of_int (round_half_even (x * 10 ^ nd)) / 10 ^ nd"

subsection \<open>The simulation loop\<close>

definition accel_factor :: "rat \<Rightarrow> rat" where
  "accel_factor accel = max (8 / 10) (min (12 / 10) (14 / 10 - (1 / 10) * accel))"

definition handling_factor :: "rat \<Rightarrow> rat" where
  "handling_factor hand = 9 / 10 + hand / 1000"

text \<open>The body of the loop up to the clamp: top speed (\<^verbatim>\<open>top\<close> in the source),
  acceleration, reliability and handling of the row, and the generator.\<close>

definition effective_speed :: "rat \<Rightarrow> rat \<Rightarrow> rat \<Rightarrow> rat \<Rightarrow> rng \<Rightarrow> rat \<times> rng" where
  "effective_speed top_speed accel rel hand g =
     (let (randomness, g1) = draw g;
          speed = (7 / 10) * top_speed * accel_factor accel * handling_factor hand * randomness;
          (u, g2) = draw g1;
          (speed', g3) =
            (if rel < u then (let (penalty, g3) = draw g2 in (speed * penalty, g3))
             else (speed, g2))
      in (max 60 (min speed' top_speed), g3))"

text \<open>One iteration of the loop. The speed is at least 60 after the clamp, so the
  division never has a zero divisor and Python's ZeroDivisionError has no branch here.\<close>

definition simulate_entry :: "rat \<Rightarrow> entry \<Rightarrow> rng \<Rightarrow> result \<times> rng" where
  "simulate_entry distance row g =
     (let (speed, g') = effective_speed (E_TOP_SPEED_KMH row) (E_ACCEL_0_100_S row)
                          (E_RELIABILITY row) (E_HANDLING row) g;
          time_min = (distance / speed) * 60
      in (\<lparr>R_CAR_ID = E_CAR_ID row, R_CAR_NAME = E_CAR_NAME row,
           R_TEAM_ID = E_TEAM_ID row, R_TEAM_NAME = E_TEAM_NAME row,
           AVG_SPEED_KMH = py_round speed 2, FINISH_TIME_MIN = py_round time_min 3,
           POSITION = 0, PRIZE_USD = 0\<rparr>, g'))"

fun simulate_loop :: "rat \<Rightarrow> entry list \<Rightarrow> rng \<Rightarrow> result list \<times> rng" where
  "simulate_loop distance [] g = ([], g)"
| "simulate_loop distance (row # rows) g =
     (let (r, g1) = simulate_entry distance row g;
          (rs, g2) = simulate_loop distance rows g1
      in (r # rs, g2))"

subsection \<open>Ranking and prizes\<close>

text \<open>\<^verbatim>\<open>for i, r in enumerate(results, start=1): r["POSITION"] = i\<close>.\<close>

fun enumerate_positions :: "int \<Rightarrow> result list \<Rightarrow> result list" where
  "enumerate_positions i [] = []"
| "enumerate_positions i (r # rs) = r\<lparr>POSITION := i\<rparr> # enumerate_positions (i + 1) rs"

text \<open>\<^verbatim>\<open>results.sort(key=...)\<close> is a stable sort, as \<open>sort_key\<close> is.\<close>

definition rank :: "result list \<Rightarrow> result list" where
  "rank results = enumerate_positions 1 (sort_key FINISH_TIME_MIN results)"

text \<open>The loop, the sort and the positions: the ranked results before the prizes.\<close>

definition simulate :: "rat \<Rightarrow> entry list \<Rightarrow> rng \<Rightarrow> result list \<times> rng" where
  "simulate distance rows g =
     (let (results, g1) = simulate_loop distance rows g in (rank results, g1))"

definition prize_split :: "rat list" where
  "prize_split = [6 / 10, 3 / 10, 1 / 10]"

definition prizes_of :: "rat \<Rightarrow> rat list \<Rightarrow> rat list" where
  "prizes_of prize_pool split = map (\<lambda>p. py_round (prize_pool * p) 2) split"

text \<open>Python's \<^verbatim>\<open>xs[i]\<close>: a negative index counts from the end, an index out of range
  raises IndexError.\<close>

definition py_index :: "'a list \<Rightarrow> int \<Rightarrow> exn + 'a" where
  "py_index xs i =
     (if 0 \<le> i \<and> i < int (length xs) then Inr (xs ! nat i)
      else if i < 0 \<and> - int (length xs) \<le> i then Inr (xs ! nat (int (length xs) + i))
      else Inl IndexError)"

definition prize_for :: "rat list \<Rightarrow> result \<Rightarrow> exn + result" where
  "prize_for prizes r =
     (if POSITION r \<le> int (length prizes)
      then (case py_index prizes (POSITION r - 1) of
              Inl e \<Rightarrow> Inl e
            | Inr p \<Rightarrow> Inr (r\<lparr>PRIZE_USD := p\<rparr>))
      else Inr (r\<lparr>PRIZE_USD := 0\<rparr>))"

fun allocate :: "rat list \<Rightarrow> result list \<Rightarrow> exn + result list" where
  "allocate prizes [] = Inr []"
| "allocate prizes (r # rs) =
     (case prize_for prizes r of
        Inl e \<Rightarrow> Inl e
      | Inr r' \<Rightarrow> (case allocate prizes rs of Inl e \<Rightarrow> Inl e | Inr rs' \<Rightarrow> Inr (r' # rs')))"

subsection \<open>Settlement\<close>

definition result_row :: "string \<Rightarrow> result \<Rightarrow> race_result" where
  "result_row race_uid r =
     \<lparr>RR_RACE_UID = race_uid, RR_CAR_ID = R_CAR_ID r, RR_TEAM_ID = R_TEAM_ID r,
      RR_FINISH_TIME_MIN = FINISH_TIME_MIN r, RR_AVG_SPEED_KMH = AVG_SPEED_KMH r,
      RR_POSITION = POSITION r, RR_PRIZE_USD = PRIZE_USD r\<rparr>"

text \<open>The group keys of \<^verbatim>\<open>df.groupby("TEAM_ID")\<close>: each team once, ascending.\<close>

definition group_keys :: "result list \<Rightarrow> int list" where
  "group_keys results = sort (remdups (map R_TEAM_ID results))"

text \<open>The rows of one group.\<close>

definition group_rows :: "result list \<Rightarrow> int \<Rightarrow> result list" where
  "group_rows results tid = filter (\<lambda>r. R_TEAM_ID r = tid) results"

text \<open>\<^verbatim>\<open>fees\<close>: TEAM_ID, entries (the count of the group), fee_total.\<close>

definition fees_of :: "rat \<Rightarrow> result list \<Rightarrow> (int \<times> nat \<times> rat) list" where
  "fees_of fee results =
     map (\<lambda>tid. let entries = length (group_rows results tid)
                 in (tid, entries, of_nat entries * fee)) (group_keys results)"

text \<open>\<^verbatim>\<open>prizes_team\<close>: TEAM_ID, PRIZE_USD (the sum over the group).\<close>

definition prizes_team_of :: "result list \<Rightarrow> (int \<times> rat) list" where
  "prizes_team_of results =
     map (\<lambda>tid. (tid, sum_list (map PRIZE_USD (group_rows results tid)))) (group_keys results)"

text \<open>\<^verbatim>\<open>pd.merge(fees, prizes_team, on="TEAM_ID", how="left").fillna({"PRIZE_USD": 0.0})\<close>:
  each row of the left frame with every matching row of the right one, and with 0 when
  there is none.\<close>

definition merge_left ::
  "(int \<times> nat \<times> rat) list \<Rightarrow> (int \<times> rat) list \<Rightarrow> (int \<times> nat \<times> rat \<times> rat) list" where
  "merge_left fees prizes_team =
     concat (map (\<lambda>(tid, entries, fee_total).
       (case filter (\<lambda>(tid', p). tid' = tid) prizes_team of
          [] \<Rightarrow> [(tid, entries, fee_total, 0)]
        | ms \<Rightarrow> map (\<lambda>(tid', p). (tid, entries, fee_total, p)) ms)) fees)"

definition merged_of :: "rat \<Rightarrow> result list \<Rightarrow> (int \<times> nat \<times> rat \<times> rat) list" where
  "merged_of fee results = merge_left (fees_of fee results) (prizes_team_of results)"

text \<open>\<^verbatim>\<open>delta = float(row["PRIZE_USD"] - row["fee_total"])\<close> with the row's TEAM_ID.\<close>

definition deltas_of :: "rat \<Rightarrow> result list \<Rightarrow> (int \<times> rat) list" where
  "deltas_of fee results =
     map (\<lambda>(tid, entries, fee_total, prize). (tid, prize - fee_total)) (merged_of fee results)"

text \<open>The statements of the \<^verbatim>\<open>try\<close> block, in the order the block issues them; the
  grouping between the inserts and the updates touches no state.\<close>

definition settlement_stmts ::
  "string \<Rightarrow> string \<Rightarrow> rat \<Rightarrow> rat \<Rightarrow> rat \<Rightarrow> result list \<Rightarrow> stmt list" where
  "settlement_stmts race_uid track distance fee prize_pool results =
     [BEGIN,
      INSERT_RACES \<lparr>RACE_UID = race_uid, TRACK_NAME = track, DISTANCE_KM = distance,
                    FEE_USD = fee, PRIZE_POOL_USD = prize_pool\<rparr>]
     @ map (\<lambda>r. INSERT_RACE_RESULTS (result_row race_uid r)) results
     @ map (\<lambda>(tid, delta). UPDATE_TEAMS_BUDGET delta tid) (deltas_of fee results)
     @ [COMMIT]"

fun run_all :: "stmt list \<Rightarrow> conn \<Rightarrow> (exn + unit) \<times> conn" where
  "run_all [] c = (Inr (), c)"
| "run_all (s # ss) c =
     (case run s c of
        (Inl e, c') \<Rightarrow> (Inl e, c')
      | (Inr u, c') \<Rightarrow> run_all ss c')"

text \<open>\<^verbatim>\<open>try: ... except Exception as e: run("ROLLBACK"); st.error(...)\<close>. An exception
  raised by the ROLLBACK itself leaves the block.\<close>

definition settle ::
  "string \<Rightarrow> string \<Rightarrow> rat \<Rightarrow> rat \<Rightarrow> rat \<Rightarrow> result list \<Rightarrow> conn \<Rightarrow> (error + unit) \<times> conn" where
  "settle race_uid track distance fee prize_pool results c =
     (case run_all (settlement_stmts race_uid track distance fee prize_pool results) c of
        (Inr u, c') \<Rightarrow> (Inr (), c')
      | (Inl e, c') \<Rightarrow>
          (case run ROLLBACK c' of
             (Inr u, c'') \<Rightarrow> (Inl SettlementFailure, c'')
           | (Inl e', c'') \<Rightarrow> (Inl (Uncaught e'), c'')))"

subsection \<open>The whole block\<close>

text \<open>\<^verbatim>\<open>if st.button("Start race!")\<close>: the race parameters of the widgets, the fresh
  \<^verbatim>\<open>uuid4\<close> token, the connection and the generator; the report, and the connection
  and generator afterwards. Rendering of the result tables is not modelled.\<close>

definition start_race ::
  "string \<Rightarrow> rat \<Rightarrow> rat \<Rightarrow> rat \<Rightarrow> string \<Rightarrow> conn \<Rightarrow> rng
     \<Rightarrow> (error + result list) \<times> conn \<times> rng" where
  "start_race track distance fee prize_pool race_uid c g =
     (case run_select c of
        (Inl e, c1) \<Rightarrow> (Inl (Uncaught e), c1, g)
      | (Inr cars_df, c1) \<Rightarrow>
          if cars_df = [] then (Inl NoEligibleParticipants, c1, g)
          else
            (let (ranked, g1) = simulate distance cars_df g
             in case allocate (prizes_of prize_pool prize_split) ranked of
                  Inl e \<Rightarrow> (Inl (Uncaught e), c1, g1)
                | Inr results' \<Rightarrow>
                    (case settle race_uid track distance fee prize_pool results' c1 of
                       (Inl e, c2) \<Rightarrow> (Inl e, c2, g1)
                     | (Inr u, c2) \<Rightarrow> (Inr results', c2, g1))))"

subsection \<open>Statements that write rows\<close>

text \<open>The inserts and updates of the block, as opposed to transaction control.\<close>

fun is_dml :: "stmt \<Rightarrow> bool" where
  "is_dml (INSERT_RACES r) = True"
| "is_dml (INSERT_RACE_RESULTS r) = True"
| "is_dml (UPDATE_TEAMS_BUDGET d t) = True"
| "is_dml s = False"

subsection \<open>Concrete inputs\<close>

text \<open>A generator whose first three calls return 1 (noise), 1/2 (reliability check) and
  4/5 (breakdown penalty).\<close>

definition breakdown_rng :: rng where
  "breakdown_rng =
     \<lparr>draws = (\<lambda>n. if n = 0 then 1 else if n = 1 then 1 / 2 else 4 / 5), consumed = 0\<rparr>"

text \<open>A generator that returns 1 for every noise draw and 1/2 for every reliability
  check, so that no car with reliability at least 1/2 breaks down.\<close>

definition steady_rng :: rng where
  "steady_rng = \<lparr>draws = (\<lambda>n. if even n then 1 else 1 / 2), consumed = 0\<rparr>"

text \<open>Four rows of the JOIN: two equal cars of the teams 1 and 2, a faster car of team 3
  and a slower second car of team 1.\<close>

definition entry_a :: entry where
  "entry_a = \<lparr>E_CAR_ID = 1, E_CAR_NAME = ''Lightning X'', E_TOP_SPEED_KMH = 280,
      E_ACCEL_0_100_S = 36 / 10, E_RELIABILITY = 92 / 100, E_HANDLING = 88,
      E_WEIGHT_KG = 1200, E_TEAM_ID = 1, E_TEAM_NAME = ''Alpha''\<rparr>"

definition entry_b :: entry where
  "entry_b = \<lparr>E_CAR_ID = 2, E_CAR_NAME = ''Lightning Y'', E_TOP_SPEED_KMH = 280,
      E_ACCEL_0_100_S = 36 / 10, E_RELIABILITY = 92 / 100, E_HANDLING = 88,
      E_WEIGHT_KG = 1200, E_TEAM_ID = 2, E_TEAM_NAME = ''Bravo''\<rparr>"

definition entry_c :: entry where
  "entry_c = \<lparr>E_CAR_ID = 3, E_CAR_NAME = ''Thunder'', E_TOP_SPEED_KMH = 300,
      E_ACCEL_0_100_S = 36 / 10, E_RELIABILITY = 92 / 100, E_HANDLING = 88,
      E_WEIGHT_KG = 1200, E_TEAM_ID = 3, E_TEAM_NAME = ''Charlie''\<rparr>"

definition entry_d :: entry where
  "entry_d = \<lparr>E_CAR_ID = 4, E_CAR_NAME = ''Breeze'', E_TOP_SPEED_KMH = 250,
      E_ACCEL_0_100_S = 36 / 10, E_RELIABILITY = 92 / 100, E_HANDLING = 88,
      E_WEIGHT_KG = 1200, E_TEAM_ID = 1, E_TEAM_NAME = ''Alpha''\<rparr>"

text \<open>The ranked results of a 100 km race of the first three rows, and of all four.\<close>

definition ranked3 :: "result list" where
  "ranked3 = fst (simulate 100 [entry_a, entry_b, entry_c] steady_rng)"

definition ranked4 :: "result list" where
  "ranked4 = fst (simulate 100 [entry_a, entry_b, entry_c, entry_d] steady_rng)"

text \<open>A generator like \<open>steady_rng\<close> whose second noise draw (the third call) is a
  millionth above 1, and the ranked results of a 100 km race of the two equal cars on it.\<close>

definition close_rng :: rng where
  "close_rng =
     \<lparr>draws = (\<lambda>n. if n = 2 then 1000001 / 1000000 else if even n then 1 else 1 / 2),
      consumed = 0\<rparr>"

definition ranked_close :: "result list" where
  "ranked_close = fst (simulate 100 [entry_a, entry_b] close_rng)"

text \<open>The same races after the prizes of a pool of 10000.\<close>

definition paid3 :: "result list" where
  "paid3 = projr (allocate (prizes_of 10000 prize_split) ranked3)"

definition paid4 :: "result list" where
  "paid4 = projr (allocate (prizes_of 10000 prize_split) ranked4)"

text \<open>A store with four teams of budget 10000 and five cars, the fifth unassigned; team 4
  has no car. Its JOIN gives the four rows above.\<close>

definition car_of_entry :: "entry \<Rightarrow> car" where
  "car_of_entry e =
     \<lparr>CAR_ID = E_CAR_ID e, CAR_NAME = E_CAR_NAME e, TOP_SPEED_KMH = E_TOP_SPEED_KMH e,
      ACCEL_0_100_S = E_ACCEL_0_100_S e, RELIABILITY = E_RELIABILITY e,
      HANDLING = E_HANDLING e, WEIGHT_KG = E_WEIGHT_KG e, CAR_TEAM_ID = Some (E_TEAM_ID e)\<rparr>"

definition demo_teams :: "team list" where
  "demo_teams =
     [\<lparr>TEAM_ID = 1, TEAM_NAME = ''Alpha'', MEMBERS = ''Alice,Bob'', BUDGET = 10000\<rparr>,
      \<lparr>TEAM_ID = 2, TEAM_NAME = ''Bravo'', MEMBERS = ''Carol'', BUDGET = 10000\<rparr>,
      \<lparr>TEAM_ID = 3, TEAM_NAME = ''Charlie'', MEMBERS = ''Dave'', BUDGET = 10000\<rparr>,
      \<lparr>TEAM_ID = 4, TEAM_NAME = ''Delta'', MEMBERS = ''Erin'', BUDGET = 10000\<rparr>]"

definition spare_car :: car where
  "spare_car =
     \<lparr>CAR_ID = 5, CAR_NAME = ''Spare'', TOP_SPEED_KMH = 280, ACCEL_0_100_S = 36 / 10,
      RELIABILITY = 92 / 100, HANDLING = 88, WEIGHT_KG = 1200, CAR_TEAM_ID = None\<rparr>"

definition demo_db :: db where
  "demo_db =
     \<lparr>teams = demo_teams,
      cars = map car_of_entry [entry_a, entry_b, entry_c, entry_d] @ [spare_car],
      races = [], race_results = []\<rparr>"

text \<open>The same store with the cars of the first three rows only, and with the unassigned
  car only.\<close>

definition demo_db3 :: db where
  "demo_db3 = demo_db\<lparr>cars := map car_of_entry [entry_a, entry_b, entry_c]\<rparr>"

definition idle_db :: db where
  "idle_db = demo_db\<lparr>cars := [spare_car]\<rparr>"

text \<open>A store whose only car has top speed 0.\<close>

definition stalled_db :: db where
  "stalled_db = demo_db\<lparr>cars := [car_of_entry (entry_a\<lparr>E_TOP_SPEED_KMH := 0\<rparr>)]\<rparr>"

text \<open>A connection on a store with no transaction open, on which no statement raises,
  and one on which exactly the \<open>k\<close>-th statement raises.\<close>

definition sound_conn :: "db \<Rightarrow> conn" where
  "sound_conn d = \<lparr>store = d, snapshot = None, fault = (\<lambda>n. False), issued = 0\<rparr>"

definition faulty_conn :: "db \<Rightarrow> nat \<Rightarrow> conn" where
  "faulty_conn d k = \<lparr>store = d, snapshot = None, fault = (\<lambda>n. n = k), issued = 0\<rparr>"

text \<open>A connection on which the \<open>k\<close>-th statement and the one after it raise.\<close>

definition broken_conn :: "db \<Rightarrow> nat \<Rightarrow> conn" where
  "broken_conn d k =
     \<lparr>store = d, snapshot = None, fault = (\<lambda>n. n = k \<or> n = Suc k), issued = 0\<rparr>"

section \<open>Facts\<close>

subsection \<open>Rounding\<close>

lemma floor_rat_divide_numeral [simp]:
  "\<lfloor>numeral a / numeral b :: rat\<rfloor> = numeral a div numeral b"
  by (metis floor_divide_of_int_eq of_int_numeral)

lemma floor_rat_one_divide_numeral [simp]:
  "\<lfloor>1 / numeral b :: rat\<rfloor> = 1 div numeral b"
  by (metis floor_divide_of_int_eq of_int_numeral of_int_1)

lemma round_half_even_upper: "of_int (round_half_even x) \<le> x + 1 / 2"
  unfolding round_half_even_def Let_def by (auto; linarith)

lemma round_half_even_nonneg: "0 \<le> x \<Longrightarrow> 0 \<le> round_half_even x"
  unfolding round_half_even_def Let_def by (auto; linarith)

lemma py_round_2_upper: "py_round x 2 \<le> x + 1 / 200"
proof -
  have "of_int (round_half_even (x * 100)) \<le> x * 100 + 1 / 2"
    by (rule round_half_even_upper)
  then show ?thesis by (simp add: py_round_def field_simps)
qed

lemma py_round_nonneg: "0 \<le> x \<Longrightarrow> 0 \<le> py_round x nd"
  by (simp add: py_round_def round_half_even_nonneg)

subsection \<open>Prize allocation\<close>

lemma prize_for_ok:
  "1 \<le> POSITION r \<Longrightarrow>
   prize_for prizes r =
     Inr (r\<lparr>PRIZE_USD := (if POSITION r \<le> int (length prizes)
                              then prizes ! nat (POSITION r - 1) else 0)\<rparr>)"
  by (simp add: prize_for_def py_index_def)

lemma allocate_ok:
  "\<forall>r \<in> set rs. 1 \<le> POSITION r \<Longrightarrow>
   allocate prizes rs =
     Inr (map (\<lambda>r. r\<lparr>PRIZE_USD := (if POSITION r \<le> int (length prizes)
                                      then prizes ! nat (POSITION r - 1) else 0)\<rparr>) rs)"
  by (induction rs) (simp_all add: prize_for_ok)

lemma prizes_of_nth:
  "1 \<le> p \<Longrightarrow> p \<le> int (length split) \<Longrightarrow>
   prizes_of prize_pool split ! nat (p - 1) = py_round (prize_pool * split ! nat (p - 1)) 2"
proof -
  assume "1 \<le> p" "p \<le> int (length split)"
  then have "nat (p - 1) < length split" by linarith
  then show ?thesis by (simp add: prizes_of_def)
qed

lemma length_prizes_of: "length (prizes_of prize_pool split) = length split"
  by (simp add: prizes_of_def)

lemma allocate_prizes:
  assumes "\<forall>r \<in> set rs. 1 \<le> POSITION r"
  shows "allocate (prizes_of prize_pool split) rs =
     Inr (map (\<lambda>r. r\<lparr>PRIZE_USD :=
            (if POSITION r \<le> int (length split)
             then py_round (prize_pool * split ! nat (POSITION r - 1)) 2 else 0)\<rparr>) rs)"
  using assms by (simp add: allocate_ok length_prizes_of prizes_of_nth)

subsection \<open>Ranking\<close>

lemma length_enumerate_positions [simp]: "length (enumerate_positions i rs) = length rs"
  by (induction rs arbitrary: i) simp_all

lemma nth_enumerate_positions:
  "k < length rs \<Longrightarrow> enumerate_positions i rs ! k = (rs ! k)\<lparr>POSITION := i + int k\<rparr>"
proof (induction rs arbitrary: i k)
  case Nil
  then show ?case by simp
next
  case (Cons r rs)
  show ?case
  proof (cases k)
    case 0
    then show ?thesis by simp
  next
    case (Suc m)
    with Cons.prems have "m < length rs" by simp
    from Cons.IH[OF this, of "i + 1"] Suc show ?thesis by (simp add: algebra_simps)
  qed
qed

lemma map_POSITION_enumerate:
  "map POSITION (enumerate_positions i rs) = map (\<lambda>k. i + int k) [0..<length rs]"
  by (rule nth_equalityI) (simp_all add: nth_enumerate_positions)

lemma map_FINISH_TIME_enumerate [simp]:
  "map FINISH_TIME_MIN (enumerate_positions i rs) = map FINISH_TIME_MIN rs"
  by (induction rs arbitrary: i) simp_all

lemma map_R_CAR_ID_enumerate [simp]:
  "map R_CAR_ID (enumerate_positions i rs) = map R_CAR_ID rs"
  by (induction rs arbitrary: i) simp_all

lemma map_R_TEAM_ID_enumerate [simp]:
  "map R_TEAM_ID (enumerate_positions i rs) = map R_TEAM_ID rs"
  by (induction rs arbitrary: i) simp_all

lemma length_rank [simp]: "length (rank rs) = length rs"
  by (simp add: rank_def)

lemma map_POSITION_rank: "map POSITION (rank rs) = map int [1..<Suc (length rs)]"
proof -
  have "map (\<lambda>k. 1 + int k) [0..<length rs] = map int (map Suc [0..<length rs])"
    by simp
  also have "map Suc [0..<length rs] = [1..<Suc (length rs)]"
    by (simp add: map_Suc_upt)
  finally show ?thesis by (simp add: rank_def map_POSITION_enumerate)
qed

lemma ranked_positions_ge_1:
  assumes "map POSITION rs = map int [1..<Suc (length rs)]"
  shows "\<forall>r \<in> set rs. 1 \<le> POSITION r"
proof
  fix r assume "r \<in> set rs"
  then have "POSITION r \<in> POSITION ` set rs" by simp
  also have "POSITION ` set rs = int ` {1..<Suc (length rs)}"
    using arg_cong[OF assms, of set] by (simp only: set_map set_upt)
  finally show "1 \<le> POSITION r" by auto
qed

lemma sorted_FINISH_TIME_rank: "sorted (map FINISH_TIME_MIN (rank rs))"
  by (simp add: rank_def)

subsection \<open>Sums of prizes\<close>

lemma sum_list_nth_take:
  "sum_list (map (\<lambda>k. if k < length ps then ps ! k else (0::rat)) [0..<n]) = sum_list (take n ps)"
proof (induction n)
  case 0
  then show ?case by simp
next
  case (Suc n)
  show ?case
  proof (cases "n < length ps")
    case True
    then show ?thesis using Suc by (simp add: take_Suc_conv_app_nth)
  next
    case False
    then show ?thesis using Suc by simp
  qed
qed

lemma sum_list_take_le:
  "\<forall>p \<in> set ps. (0::rat) \<le> p \<Longrightarrow> sum_list (take n ps) \<le> sum_list ps"
proof -
  assume h: "\<forall>p \<in> set ps. (0::rat) \<le> p"
  have "sum_list ps = sum_list (take n ps) + sum_list (drop n ps)"
    by (metis append_take_drop_id sum_list_append)
  moreover have "0 \<le> sum_list (drop n ps)"
    using h by (intro sum_list_nonneg) (auto dest: in_set_dropD)
  ultimately show ?thesis by simp
qed

lemma sum_list_py_round_le:
  "sum_list (map (\<lambda>p. py_round (pool * p) 2) ps) \<le> pool * sum_list ps + of_nat (length ps) / 200"
proof (induction ps)
  case Nil
  then show ?case by simp
next
  case (Cons p ps)
  have "py_round (pool * p) 2 \<le> pool * p + 1 / 200" by (rule py_round_2_upper)
  with Cons show ?case by (simp add: algebra_simps add_divide_distrib)
qed

lemma map_PRIZE_USD_allocated:
  assumes "map POSITION rs = map int [1..<Suc (length rs)]"
  shows "map PRIZE_USD (map (\<lambda>r. r\<lparr>PRIZE_USD := (if POSITION r \<le> int (length prizes)
                                      then prizes ! nat (POSITION r - 1) else 0)\<rparr>) rs)
         = map (\<lambda>k. if k < length prizes then prizes ! k else 0) [0..<length rs]"
proof -
  let ?f = "\<lambda>p. if p \<le> int (length prizes) then prizes ! nat (p - 1) else 0"
  have "map PRIZE_USD (map (\<lambda>r. r\<lparr>PRIZE_USD := ?f (POSITION r)\<rparr>) rs) = map ?f (map POSITION rs)"
    by simp
  also have "\<dots> = map ?f (map int (map Suc [0..<length rs]))"
    by (simp only: assms map_Suc_upt One_nat_def)
  also have "\<dots> = map (\<lambda>k. if k < length prizes then prizes ! k else 0) [0..<length rs]"
    by (simp add: Suc_le_eq)
  finally show ?thesis .
qed

lemma sum_prizes_of_take_le:
  assumes "0 \<le> pool" "\<forall>p \<in> set split. 0 \<le> p" "sum_list split \<le> 1"
  shows "sum_list (take n (prizes_of pool split)) \<le> pool + of_nat (min n (length split)) / 200"
proof -
  have "sum_list (take n (prizes_of pool split))
        = sum_list (map (\<lambda>p. py_round (pool * p) 2) (take n split))"
    by (simp add: prizes_of_def take_map)
  also have "\<dots> \<le> pool * sum_list (take n split) + of_nat (length (take n split)) / 200"
    by (rule sum_list_py_round_le)
  also have "\<dots> \<le> pool * 1 + of_nat (min n (length split)) / 200"
  proof -
    have "sum_list (take n split) \<le> 1"
      using sum_list_take_le[OF assms(2), of n] assms(3) by simp
    then have "pool * sum_list (take n split) \<le> pool * 1"
      using assms(1) by (rule mult_left_mono)
    then show ?thesis by (simp add: min.commute)
  qed
  finally show ?thesis by simp
qed

lemma prizes_of_nonneg:
  assumes "0 \<le> pool" "\<forall>p \<in> set split. 0 \<le> p"
  shows "\<forall>x \<in> set (prizes_of pool split). 0 \<le> x"
  using assms by (auto simp: prizes_of_def intro!: py_round_nonneg)

subsection \<open>The simulation loop\<close>

lemma simulate_entry_ids [simp]:
  "R_CAR_ID (fst (simulate_entry distance row g)) = E_CAR_ID row"
  "R_TEAM_ID (fst (simulate_entry distance row g)) = E_TEAM_ID row"
  by (simp_all add: simulate_entry_def Let_def split: prod.splits)

lemma length_simulate_loop [simp]:
  "length (fst (simulate_loop distance rows g)) = length rows"
proof (induction rows arbitrary: g)
  case Nil
  then show ?case by simp
next
  case (Cons row rows)
  obtain r g1 where e: "simulate_entry distance row g = (r, g1)" by (cases "simulate_entry distance row g")
  obtain rs g2 where l: "simulate_loop distance rows g1 = (rs, g2)" by (cases "simulate_loop distance rows g1")
  have "length rs = length rows" using Cons[of g1] l by simp
  then show ?case using e l by simp
qed

lemma map_R_CAR_ID_simulate_loop:
  "map R_CAR_ID (fst (simulate_loop distance rows g)) = map E_CAR_ID rows"
proof (induction rows arbitrary: g)
  case Nil
  then show ?case by simp
next
  case (Cons row rows)
  obtain r g1 where e: "simulate_entry distance row g = (r, g1)" by (cases "simulate_entry distance row g")
  obtain rs g2 where l: "simulate_loop distance rows g1 = (rs, g2)" by (cases "simulate_loop distance rows g1")
  have "R_CAR_ID r = E_CAR_ID row" using simulate_entry_ids(1)[of distance row g] e by simp
  moreover have "map R_CAR_ID rs = map E_CAR_ID rows" using Cons[of g1] l by simp
  ultimately show ?case using e l by simp
qed

lemma map_R_TEAM_ID_simulate_loop:
  "map R_TEAM_ID (fst (simulate_loop distance rows g)) = map E_TEAM_ID rows"
proof (induction rows arbitrary: g)
  case Nil
  then show ?case by simp
next
  case (Cons row rows)
  obtain r g1 where e: "simulate_entry distance row g = (r, g1)" by (cases "simulate_entry distance row g")
  obtain rs g2 where l: "simulate_loop distance rows g1 = (rs, g2)" by (cases "simulate_loop distance rows g1")
  have "R_TEAM_ID r = E_TEAM_ID row" using simulate_entry_ids(2)[of distance row g] e by simp
  moreover have "map R_TEAM_ID rs = map E_TEAM_ID rows" using Cons[of g1] l by simp
  ultimately show ?case using e l by simp
qed

lemma fst_simulate: "fst (simulate distance rows g) = rank (fst (simulate_loop distance rows g))"
  by (simp add: simulate_def split: prod.splits)

lemma mset_R_CAR_ID_rank:
  "mset (map R_CAR_ID (rank rs)) = mset (map R_CAR_ID rs)"
proof -
  have "map R_CAR_ID (rank rs) = map R_CAR_ID (sort_key FINISH_TIME_MIN rs)"
    by (simp add: rank_def)
  then show ?thesis by simp
qed

lemma nth_POSITION_ranked:
  assumes "map POSITION rs = map int [1..<Suc (length rs)]" and "i < length rs"
  shows "POSITION (rs ! i) = int i + 1"
proof -
  have "POSITION (rs ! i) = map POSITION rs ! i" using assms(2) by simp
  also have "\<dots> = map int [1..<Suc (length rs)] ! i" by (simp only: assms(1))
  also have "\<dots> = int i + 1" using assms(2) by (simp del: upt_Suc)
  finally show ?thesis .
qed

lemma filter_enumerate_positions:
  "map R_CAR_ID (filter (\<lambda>r. FINISH_TIME_MIN r = t) (enumerate_positions i rs))
   = map R_CAR_ID (filter (\<lambda>r. FINISH_TIME_MIN r = t) rs)"
  by (induction rs arbitrary: i) simp_all

lemma rank_stable:
  "map R_CAR_ID (filter (\<lambda>r. FINISH_TIME_MIN r = t) (rank rs))
   = map R_CAR_ID (filter (\<lambda>r. FINISH_TIME_MIN r = t) rs)"
  by (simp only: rank_def filter_enumerate_positions sort_key_stable)

lemma simulate_entry_rounds:
  "FINISH_TIME_MIN (fst (simulate_entry distance row g))
     = py_round (distance / fst (effective_speed (E_TOP_SPEED_KMH row) (E_ACCEL_0_100_S row)
                                   (E_RELIABILITY row) (E_HANDLING row) g) * 60) 3"
  "AVG_SPEED_KMH (fst (simulate_entry distance row g))
     = py_round (fst (effective_speed (E_TOP_SPEED_KMH row) (E_ACCEL_0_100_S row)
                        (E_RELIABILITY row) (E_HANDLING row) g)) 2"
  by (simp_all add: simulate_entry_def Let_def split: prod.splits)

lemma simulate_loop_entries:
  "r \<in> set (fst (simulate_loop distance rows g))
   \<Longrightarrow> \<exists>row \<in> set rows. \<exists>g'. r = fst (simulate_entry distance row g')"
proof (induction rows arbitrary: g)
  case Nil
  then show ?case by simp
next
  case (Cons row rows)
  obtain r0 g1 where e: "simulate_entry distance row g = (r0, g1)" by (cases "simulate_entry distance row g")
  obtain rs g2 where l: "simulate_loop distance rows g1 = (rs, g2)" by (cases "simulate_loop distance rows g1")
  from Cons.prems e l have "r = r0 \<or> r \<in> set rs" by simp
  then show ?case
  proof
    assume "r = r0"
    then have "r = fst (simulate_entry distance row g)" using e by simp
    then show ?thesis by auto
  next
    assume "r \<in> set rs"
    then have "r \<in> set (fst (simulate_loop distance rows g1))" using l by simp
    from Cons.IH[OF this] show ?thesis by auto
  qed
qed

subsection \<open>Statements and transactions\<close>

lemma exec_fault [simp]: "fault (exec s c) = fault c"
  by (cases s) (simp_all split: option.splits)

lemma exec_issued [simp]: "issued (exec s c) = issued c"
  by (cases s) (simp_all split: option.splits)

lemma run_fault [simp]: "fault (snd (run s c)) = fault c"
  by (simp add: run_def)

lemma run_issued [simp]: "issued (snd (run s c)) = Suc (issued c)"
  by (simp add: run_def)

lemma run_all_fault [simp]: "fault (snd (run_all ss c)) = fault c"
proof (induction ss arbitrary: c)
  case Nil
  then show ?case by simp
next
  case (Cons s ss)
  obtain r c1 where r: "run s c = (r, c1)" by (cases "run s c")
  then have "fault c1 = fault c" using run_fault[of s c] by simp
  then show ?case using r Cons[of c1] by (cases r) simp_all
qed

text \<open>The block succeeds exactly when none of its statements raises.\<close>

lemma run_all_Inr_iff:
  "fst (run_all ss c) = Inr () \<longleftrightarrow> (\<forall>i < length ss. \<not> fault c (issued c + i))"
proof (induction ss arbitrary: c)
  case Nil
  then show ?case by simp
next
  case (Cons s ss)
  show ?case
  proof (cases "fault c (issued c)")
    case True
    then have "fst (run_all (s # ss) c) = Inl DatabaseError" by (simp add: run_def)
    moreover have "\<not> (\<forall>i < length (s # ss). \<not> fault c (issued c + i))"
      using True by (auto intro: exI[of _ 0])
    ultimately show ?thesis by simp
  next
    case False
    let ?c1 = "(exec s c)\<lparr>issued := Suc (issued c)\<rparr>"
    have r: "run_all (s # ss) c = run_all ss ?c1" using False by (simp add: run_def)
    have "(\<forall>i < length (s # ss). \<not> fault c (issued c + i))
          \<longleftrightarrow> (\<forall>i < length ss. \<not> fault c (Suc (issued c) + i))"
      using False by (auto simp: less_Suc_eq_0_disj)
    then show ?thesis using Cons[of ?c1] r by simp
  qed
qed

lemma exec_issued_update: "exec s (c\<lparr>issued := n\<rparr>) = (exec s c)\<lparr>issued := n\<rparr>"
  by (cases s) (simp_all split: option.splits)

lemma fold_exec_issued_update:
  "fold exec ss (c\<lparr>issued := n\<rparr>) = (fold exec ss c)\<lparr>issued := n\<rparr>"
  by (induction ss arbitrary: c) (simp_all add: exec_issued_update)

text \<open>When no statement raises, the block has the effect of its statements in order.\<close>

lemma run_all_Inr_effect:
  "fst (run_all ss c) = Inr () \<Longrightarrow>
   snd (run_all ss c) = (fold exec ss c)\<lparr>issued := issued c + length ss\<rparr>"
proof (induction ss arbitrary: c)
  case Nil
  then show ?case by simp
next
  case (Cons s ss)
  show ?case
  proof (cases "fault c (issued c)")
    case True
    then have "fst (run_all (s # ss) c) = Inl DatabaseError" by (simp add: run_def)
    with Cons.prems show ?thesis by simp
  next
    case False
    let ?c1 = "(exec s c)\<lparr>issued := Suc (issued c)\<rparr>"
    have r: "run_all (s # ss) c = run_all ss ?c1" using False by (simp add: run_def)
    with Cons.prems have "fst (run_all ss ?c1) = Inr ()" by simp
    from Cons.IH[OF this] r show ?thesis by (simp add: fold_exec_issued_update)
  qed
qed

lemma run_all_append:
  "run_all (xs @ ys) c =
     (case run_all xs c of (Inl e, c') \<Rightarrow> (Inl e, c') | (Inr u, c') \<Rightarrow> run_all ys c')"
proof (induction xs arbitrary: c)
  case Nil
  then show ?case by simp
next
  case (Cons s xs)
  obtain r c1 where r: "run s c = (r, c1)" by (cases "run s c")
  show ?case using r Cons[of c1] by (cases r) simp_all
qed

lemma exec_dml_snapshot: "is_dml s \<Longrightarrow> snapshot (exec s c) = snapshot c"
  by (cases s) simp_all

lemma run_dml_snapshot: "is_dml s \<Longrightarrow> snapshot (snd (run s c)) = snapshot c"
  by (simp add: run_def exec_dml_snapshot)

lemma run_all_dml_snapshot:
  "\<forall>s \<in> set ss. is_dml s \<Longrightarrow> snapshot (snd (run_all ss c)) = snapshot c"
proof (induction ss arbitrary: c)
  case Nil
  then show ?case by simp
next
  case (Cons s ss)
  obtain r c1 where r: "run s c = (r, c1)" by (cases "run s c")
  have s1: "snapshot c1 = snapshot c" using run_dml_snapshot[of s c] Cons.prems r by simp
  have "snapshot (snd (run_all ss c1)) = snapshot c1" using Cons by simp
  then show ?case using r s1 by (cases r) simp_all
qed

subsection \<open>Grouping by team\<close>

lemma distinct_group_keys: "distinct (group_keys results)"
  by (simp add: group_keys_def)

lemma set_group_keys: "set (group_keys results) = R_TEAM_ID ` set results"
  by (simp add: group_keys_def)

lemma filter_key_unique:
  "distinct ks \<Longrightarrow> k \<in> set ks \<Longrightarrow>
   filter (\<lambda>(k', p). k' = k) (map (\<lambda>k. (k, h k)) ks) = [(k, h k)]"
proof (induction ks)
  case Nil
  then show ?case by simp
next
  case (Cons a ks)
  show ?case
  proof (cases "a = k")
    case True
    with Cons.prems have "k \<notin> set ks" by simp
    then have "filter (\<lambda>(k', p). k' = k) (map (\<lambda>k. (k, h k)) ks) = []"
      by (auto simp: filter_empty_conv)
    with True show ?thesis by simp
  next
    case False
    with Cons show ?thesis by simp
  qed
qed

lemma merge_left_same_keys:
  assumes "distinct ks"
  shows "merge_left (map (\<lambda>k. (k, n k, f k)) ks) (map (\<lambda>k. (k, h k)) ks)
         = map (\<lambda>k. (k, n k, f k, h k)) ks"
proof -
  have "concat (map (\<lambda>k. case filter (\<lambda>(k', p). k' = k) (map (\<lambda>k. (k, h k)) ks) of
         [] \<Rightarrow> [(k, n k, f k, 0)]
       | ms \<Rightarrow> map (\<lambda>(k', p). (k, n k, f k, p)) ms) ks)
      = concat (map (\<lambda>k. [(k, n k, f k, h k)]) ks)"
    by (rule arg_cong[where f = concat], rule map_cong)
       (simp_all add: filter_key_unique[OF assms])
  then show ?thesis
    by (simp add: merge_left_def comp_def)
qed

lemma deltas_of_eq:
  "deltas_of fee results =
     map (\<lambda>tid. (tid, sum_list (map PRIZE_USD (group_rows results tid))
                       - of_nat (length (group_rows results tid)) * fee))
       (group_keys results)"
  by (simp add: deltas_of_def merged_of_def fees_of_def prizes_team_of_def Let_def
      merge_left_same_keys[OF distinct_group_keys])

lemma map_of_deltas_of:
  "map_of (deltas_of fee results) tid =
     (if tid \<in> R_TEAM_ID ` set results
      then Some (sum_list (map PRIZE_USD (group_rows results tid))
                   - of_nat (length (group_rows results tid)) * fee)
      else None)"
proof -
  have "map_of (map (\<lambda>k. (k, h k)) ks) x = (if x \<in> set ks then Some (h x) else None)"
    for ks :: "int list" and h :: "int \<Rightarrow> rat" and x
    by (induction ks) simp_all
  then show ?thesis by (simp add: deltas_of_eq set_group_keys)
qed

lemma distinct_keys_deltas_of: "distinct (map fst (deltas_of fee results))"
  by (simp add: deltas_of_eq comp_def distinct_group_keys)

text \<open>The UPDATE statements of distinct teams, one after the other.\<close>

lemma add_budget_TEAM_ID [simp]: "TEAM_ID (add_budget delta tid t) = TEAM_ID t"
  by (simp add: add_budget_def)

lemma fold_add_budget:
  "distinct (map fst ds) \<Longrightarrow>
   fold (\<lambda>(tid, delta). map (add_budget delta tid)) ds ts =
     map (\<lambda>t. case map_of ds (TEAM_ID t) of
                 None \<Rightarrow> t
               | Some delta \<Rightarrow> t\<lparr>BUDGET := BUDGET t + delta\<rparr>) ts"
proof (induction ds arbitrary: ts)
  case Nil
  then show ?case by simp
next
  case (Cons d ds)
  obtain k delta where d: "d = (k, delta)" by (cases d)
  with Cons.prems have nk: "k \<notin> fst ` set ds" and dist: "distinct (map fst ds)" by simp_all
  then have none: "map_of ds k = None" by (simp add: map_of_eq_None_iff)
  have "fold (\<lambda>(tid, delta). map (add_budget delta tid)) (d # ds) ts
        = fold (\<lambda>(tid, delta). map (add_budget delta tid)) ds (map (add_budget delta k) ts)"
    by (simp add: d)
  also have "\<dots> = map (\<lambda>t. case map_of ds (TEAM_ID t) of
                 None \<Rightarrow> t
               | Some delta \<Rightarrow> t\<lparr>BUDGET := BUDGET t + delta\<rparr>) (map (add_budget delta k) ts)"
    using Cons.IH[OF dist] by simp
  also have "\<dots> = map (\<lambda>t. case map_of (d # ds) (TEAM_ID t) of
                 None \<Rightarrow> t
               | Some delta \<Rightarrow> t\<lparr>BUDGET := BUDGET t + delta\<rparr>) ts"
    using none by (auto simp: d add_budget_def split: option.splits)
  finally show ?case .
qed

subsection \<open>The settlement block\<close>

lemma fold_exec_inserts:
  "fold exec (map (\<lambda>r. INSERT_RACE_RESULTS (f r)) rs) c =
     c\<lparr>store := (store c)\<lparr>race_results := race_results (store c) @ map f rs\<rparr>\<rparr>"
  by (induction rs arbitrary: c) simp_all

lemma fold_exec_updates:
  "fold exec (map (\<lambda>(tid, delta). UPDATE_TEAMS_BUDGET delta tid) ds) c =
     c\<lparr>store := (store c)\<lparr>teams :=
        fold (\<lambda>(tid, delta). map (add_budget delta tid)) ds (teams (store c))\<rparr>\<rparr>"
  by (induction ds arbitrary: c) (simp_all add: case_prod_beta)

lemma fold_exec_settlement:
  "fold exec (settlement_stmts race_uid track distance fee prize_pool results) c =
     c\<lparr>store := (store c)
          \<lparr>races := races (store c) @
             [\<lparr>RACE_UID = race_uid, TRACK_NAME = track, DISTANCE_KM = distance,
               FEE_USD = fee, PRIZE_POOL_USD = prize_pool\<rparr>],
           race_results := race_results (store c) @ map (result_row race_uid) results,
           teams := fold (\<lambda>(tid, delta). map (add_budget delta tid)) (deltas_of fee results)
                      (teams (store c))\<rparr>,
        snapshot := None\<rparr>"
  by (simp add: settlement_stmts_def fold_exec_inserts fold_exec_updates split: option.splits)

lemma is_dml_settlement:
  "\<forall>s \<in> set (INSERT_RACES race
      # map (\<lambda>r. INSERT_RACE_RESULTS (result_row race_uid r)) results
      @ map (\<lambda>(tid, delta). UPDATE_TEAMS_BUDGET delta tid) ds). is_dml s"
  by auto

lemma settlement_stmts_shape:
  "settlement_stmts race_uid track distance fee prize_pool results =
     BEGIN # (INSERT_RACES \<lparr>RACE_UID = race_uid, TRACK_NAME = track, DISTANCE_KM = distance,
                             FEE_USD = fee, PRIZE_POOL_USD = prize_pool\<rparr>
      # map (\<lambda>r. INSERT_RACE_RESULTS (result_row race_uid r)) results
      @ map (\<lambda>(tid, delta). UPDATE_TEAMS_BUDGET delta tid) (deltas_of fee results))
     @ [COMMIT]"
  by (simp add: settlement_stmts_def)

text \<open>When a statement of a block BEGIN, writes, COMMIT raises, either no transaction was
  opened and the store is untouched, or the transaction is still open on the state at
  BEGIN.\<close>

lemma run_all_block_raises:
  assumes "snapshot c = None" and "\<forall>s \<in> set dml. is_dml s"
    and "fst (run_all (BEGIN # dml @ [COMMIT]) c) = Inl e"
  shows "(snapshot (snd (run_all (BEGIN # dml @ [COMMIT]) c)) = None
            \<and> store (snd (run_all (BEGIN # dml @ [COMMIT]) c)) = store c)
         \<or> snapshot (snd (run_all (BEGIN # dml @ [COMMIT]) c)) = Some (store c)"
proof (cases "fault c (issued c)")
  case True
  then show ?thesis using assms(1) by (simp add: run_def)
next
  case False
  let ?c1 = "(exec BEGIN c)\<lparr>issued := Suc (issued c)\<rparr>"
  have r: "run_all (BEGIN # dml @ [COMMIT]) c = run_all (dml @ [COMMIT]) ?c1"
    using False by (simp add: run_def)
  have s1: "snapshot ?c1 = Some (store c)" using assms(1) by simp
  obtain r2 c2 where d: "run_all dml ?c1 = (r2, c2)" by (cases "run_all dml ?c1")
  have s2: "snapshot c2 = Some (store c)"
    using run_all_dml_snapshot[OF assms(2), of ?c1] d s1 by simp
  show ?thesis
  proof (cases r2)
    case (Inl e2)
    then have "run_all (dml @ [COMMIT]) ?c1 = (Inl e2, c2)"
      using d by (simp add: run_all_append)
    with r s2 show ?thesis by simp
  next
    case (Inr u)
    then have a: "run_all (dml @ [COMMIT]) ?c1 = run_all [COMMIT] c2"
      using d by (simp add: run_all_append)
    have "fault c2 (issued c2)"
    proof (rule ccontr)
      assume "\<not> fault c2 (issued c2)"
      then have "fst (run_all [COMMIT] c2) = Inr ()" by (simp add: run_def)
      with a r assms(3) show False by simp
    qed
    then have "snd (run_all [COMMIT] c2) = c2\<lparr>issued := Suc (issued c2)\<rparr>"
      by (simp add: run_def)
    with a r s2 show ?thesis by simp
  qed
qed

lemma fst_run_all_cases: "fst (run_all ss c) = Inr () \<or> fst (run_all ss c) = Inl DatabaseError"
proof (induction ss arbitrary: c)
  case Nil
  then show ?case by simp
next
  case (Cons s ss)
  show ?case
  proof (cases "fault c (issued c)")
    case True
    then show ?thesis by (simp add: run_def)
  next
    case False
    then show ?thesis using Cons[of "(exec s c)\<lparr>issued := Suc (issued c)\<rparr>"] by (simp add: run_def)
  qed
qed

text \<open>The whole \<open>try\<close> / \<open>except\<close>.\<close>

lemma settle_success:
  assumes "\<forall>i < length (settlement_stmts race_uid track distance fee prize_pool results).
             \<not> fault c (issued c + i)"
  shows "settle race_uid track distance fee prize_pool results c =
     (Inr (), (fold exec (settlement_stmts race_uid track distance fee prize_pool results) c)
        \<lparr>issued := issued c
           + length (settlement_stmts race_uid track distance fee prize_pool results)\<rparr>)"
proof -
  let ?ss = "settlement_stmts race_uid track distance fee prize_pool results"
  have ok: "fst (run_all ?ss c) = Inr ()" using assms by (simp add: run_all_Inr_iff)
  obtain r1 c1 where ra: "run_all ?ss c = (r1, c1)" by (cases "run_all ?ss c")
  have "r1 = Inr ()" using ok ra by simp
  moreover have "c1 = (fold exec ?ss c)\<lparr>issued := issued c + length ?ss\<rparr>"
    using run_all_Inr_effect[OF ok] ra by simp
  ultimately show ?thesis using ra by (simp add: settle_def)
qed

lemma settle_failure:
  assumes "snapshot c = None"
    and "\<exists>i < length (settlement_stmts race_uid track distance fee prize_pool results).
             fault c (issued c + i)"
  defines "out \<equiv> settle race_uid track distance fee prize_pool results c"
  shows "committed (snd out) = store c"
    and "fault c (issued (snd out) - 1) \<Longrightarrow> fst out = Inl (Uncaught DatabaseError)"
    and "\<not> fault c (issued (snd out) - 1) \<Longrightarrow>
           fst out = Inl SettlementFailure \<and> store (snd out) = store c \<and> snapshot (snd out) = None"
proof -
  let ?ss = "settlement_stmts race_uid track distance fee prize_pool results"
  obtain r1 c1 where ra: "run_all ?ss c = (r1, c1)" by (cases "run_all ?ss c")
  have "fst (run_all ?ss c) \<noteq> Inr ()" using assms(2) by (simp add: run_all_Inr_iff)
  with fst_run_all_cases[of ?ss c] ra have r1: "r1 = Inl DatabaseError" by simp
  have f1: "fault c1 = fault c" using run_all_fault[of ?ss c] ra by simp
  let ?dml = "INSERT_RACES \<lparr>RACE_UID = race_uid, TRACK_NAME = track, DISTANCE_KM = distance,
                             FEE_USD = fee, PRIZE_POOL_USD = prize_pool\<rparr>
      # map (\<lambda>r. INSERT_RACE_RESULTS (result_row race_uid r)) results
      @ map (\<lambda>(tid, delta). UPDATE_TEAMS_BUDGET delta tid) (deltas_of fee results)"
  have shape: "?ss = BEGIN # ?dml @ [COMMIT]" by (rule settlement_stmts_shape)
  have dml: "\<forall>s \<in> set ?dml. is_dml s" by (rule is_dml_settlement)
  have raised: "fst (run_all (BEGIN # ?dml @ [COMMIT]) c) = Inl DatabaseError"
    using ra r1 by (simp only: shape[symmetric] fst_conv)
  have "(snapshot c1 = None \<and> store c1 = store c) \<or> snapshot c1 = Some (store c)"
    using run_all_block_raises[OF assms(1) dml raised] ra
    by (simp only: shape[symmetric] snd_conv)
  then have inv: "committed c1 = store c"
    and rb: "store (exec ROLLBACK c1) = store c" "snapshot (exec ROLLBACK c1) = None"
    by (auto simp: committed_def)
  have out: "out = (case run ROLLBACK c1 of
             (Inr u, c'') \<Rightarrow> (Inl SettlementFailure, c'')
           | (Inl e', c'') \<Rightarrow> (Inl (Uncaught e'), c''))"
    using ra r1 by (simp add: out_def settle_def)
  have out_raise: "out = (Inl (Uncaught DatabaseError), c1\<lparr>issued := Suc (issued c1)\<rparr>)"
    if "fault c (issued c1)"
    using that f1 by (simp add: out run_def)
  have out_back: "out = (Inl SettlementFailure, (exec ROLLBACK c1)\<lparr>issued := Suc (issued c1)\<rparr>)"
    if "\<not> fault c (issued c1)"
    using that f1 by (simp add: out run_def)
  have iss: "issued (snd out) - 1 = issued c1"
    by (cases "fault c (issued c1)") (simp_all add: out_raise out_back)
  show "committed (snd out) = store c"
  proof (cases "fault c (issued c1)")
    case True
    then show ?thesis using inv by (simp add: out_raise committed_def split: option.splits)
  next
    case False
    then show ?thesis using rb by (simp add: out_back committed_def split: option.splits)
  qed
  show "fst out = Inl (Uncaught DatabaseError)" if "fault c (issued (snd out) - 1)"
  proof -
    from that iss have "fault c (issued c1)" by simp
    then show ?thesis by (simp add: out_raise)
  qed
  show "fst out = Inl SettlementFailure \<and> store (snd out) = store c \<and> snapshot (snd out) = None"
    if "\<not> fault c (issued (snd out) - 1)"
  proof -
    from that iss have "\<not> fault c (issued c1)" by simp
    then show ?thesis using rb by (simp add: out_back)
  qed
qed

lemma settle_Inr_iff:
  "fst (settle race_uid track distance fee prize_pool results c) = Inr () \<longleftrightarrow>
   (\<forall>i < length (settlement_stmts race_uid track distance fee prize_pool results).
      \<not> fault c (issued c + i))"
proof -
  let ?ss = "settlement_stmts race_uid track distance fee prize_pool results"
  obtain r1 c1 where ra: "run_all ?ss c = (r1, c1)" by (cases "run_all ?ss c")
  obtain r2 c2 where rb: "run ROLLBACK c1 = (r2, c2)" by (cases "run ROLLBACK c1")
  have "fst (settle race_uid track distance fee prize_pool results c) = Inr ()
        \<longleftrightarrow> fst (run_all ?ss c) = Inr ()"
    using ra rb by (cases r1; cases r2) (simp_all add: settle_def)
  then show ?thesis by (simp add: run_all_Inr_iff)
qed

lemma has_entry_iff:
  "tid \<in> R_TEAM_ID ` set results \<longleftrightarrow> 1 \<le> length (group_rows results tid)"
proof -
  have "1 \<le> length (group_rows results tid) \<longleftrightarrow> group_rows results tid \<noteq> []"
    by (cases "group_rows results tid") simp_all
  also have "\<dots> \<longleftrightarrow> tid \<in> R_TEAM_ID ` set results"
    by (auto simp: group_rows_def filter_empty_conv)
  finally show ?thesis by simp
qed

lemma settled_teams_eq:
  "fold (\<lambda>(tid, delta). map (add_budget delta tid)) (deltas_of fee results) ts =
     map (\<lambda>t. if 1 \<le> length (group_rows results (TEAM_ID t))
               then t\<lparr>BUDGET := BUDGET t
                      + (sum_list (map PRIZE_USD (group_rows results (TEAM_ID t)))
                         - of_nat (length (group_rows results (TEAM_ID t))) * fee)\<rparr>
               else t) ts"
  by (simp add: fold_add_budget[OF distinct_keys_deltas_of] map_of_deltas_of has_entry_iff)

subsection \<open>The whole block\<close>

lemma consumed_effective_speed:
  "consumed g + 2 \<le> consumed (snd (effective_speed top_speed accel rel hand g))"
  by (simp add: effective_speed_def draw_def Let_def split: prod.splits)

lemma snd_simulate_entry:
  "snd (simulate_entry distance row g)
     = snd (effective_speed (E_TOP_SPEED_KMH row) (E_ACCEL_0_100_S row)
              (E_RELIABILITY row) (E_HANDLING row) g)"
  by (simp add: simulate_entry_def Let_def split: prod.splits)

lemma consumed_simulate_entry:
  "consumed g + 2 \<le> consumed (snd (simulate_entry distance row g))"
  by (simp only: snd_simulate_entry consumed_effective_speed)

lemma consumed_simulate_loop:
  "consumed g + 2 * length rows \<le> consumed (snd (simulate_loop distance rows g))"
proof (induction rows arbitrary: g)
  case Nil
  then show ?case by simp
next
  case (Cons row rows)
  obtain r g1 where e: "simulate_entry distance row g = (r, g1)" by (cases "simulate_entry distance row g")
  obtain rs g2 where l: "simulate_loop distance rows g1 = (rs, g2)" by (cases "simulate_loop distance rows g1")
  have "consumed g + 2 \<le> consumed g1" using consumed_simulate_entry[of g distance row] e by simp
  moreover have "consumed g1 + 2 * length rows \<le> consumed g2" using Cons[of g1] l by simp
  ultimately show ?case using e l by simp
qed

lemma snd_simulate: "snd (simulate distance rows g) = snd (simulate_loop distance rows g)"
  by (simp add: simulate_def split: prod.splits)

lemma allocate_rank:
  "allocate prizes (rank rs) =
     Inr (map (\<lambda>r. r\<lparr>PRIZE_USD := (if POSITION r \<le> int (length prizes)
                                      then prizes ! nat (POSITION r - 1) else 0)\<rparr>) (rank rs))"
proof -
  have "map POSITION (rank rs) = map int [1..<Suc (length (rank rs))]"
    by (simp only: map_POSITION_rank length_rank)
  then have "\<forall>r \<in> set (rank rs). 1 \<le> POSITION r" by (rule ranked_positions_ge_1)
  then show ?thesis by (rule allocate_ok)
qed

text \<open>The block on a connection where nothing raises and the JOIN is not empty.\<close>

lemma start_race_success:
  fixes track race_uid :: string and distance fee prize_pool :: rat and c :: conn and g :: rng
  assumes "select_cars_join_teams (store c) \<noteq> []" and "\<forall>n. \<not> fault c n"
  defines "ranked \<equiv> fst (simulate distance (select_cars_join_teams (store c)) g)"
  defines "results \<equiv> projr (allocate (prizes_of prize_pool prize_split) ranked)"
  shows "start_race track distance fee prize_pool race_uid c g =
     (Inr results,
      (fold exec (settlement_stmts race_uid track distance fee prize_pool results) c)
        \<lparr>issued := Suc (issued c)
           + length (settlement_stmts race_uid track distance fee prize_pool results)\<rparr>,
      snd (simulate distance (select_cars_join_teams (store c)) g))"
proof -
  let ?c1 = "c\<lparr>issued := Suc (issued c)\<rparr>"
  let ?rows = "select_cars_join_teams (store c)"
  have sel: "run_select c = (Inr ?rows, ?c1)" using assms(2) by (simp add: run_select_def)
  obtain rk g1 where sim: "simulate distance ?rows g = (rk, g1)" by (cases "simulate distance ?rows g")
  have rk: "rk = ranked" using sim by (simp add: ranked_def)
  have "ranked = rank (fst (simulate_loop distance ?rows g))" by (simp add: ranked_def fst_simulate)
  then have "\<exists>rs'. allocate (prizes_of prize_pool prize_split) ranked = Inr rs'"
    using allocate_rank[of "prizes_of prize_pool prize_split"] by simp
  then have al: "allocate (prizes_of prize_pool prize_split) ranked = Inr results"
    by (auto simp: results_def)
  have nf: "\<forall>i < length (settlement_stmts race_uid track distance fee prize_pool results).
      \<not> fault ?c1 (issued ?c1 + i)"
    using assms(2) by simp
  show ?thesis
    using assms(1)
    by (simp add: start_race_def sel sim rk al settle_success[OF nf] fold_exec_issued_update)
qed

lemma length_allocate_rank:
  "length (projr (allocate prizes (rank rs))) = length rs"
  by (simp add: allocate_rank)

lemma select_nonempty_iff:
  "select_cars_join_teams d = [] \<longleftrightarrow>
   (\<forall>car \<in> set (cars d). \<forall>t \<in> set (teams d). CAR_TEAM_ID car \<noteq> Some (TEAM_ID t))"
  by (auto simp: select_cars_join_teams_def filter_empty_conv)

subsection \<open>Three entries of three teams\<close>

lemma three_ranked:
  assumes "map POSITION rs = [1, 2, 3]"
  obtains r0 r1 r2 where "rs = [r0, r1, r2]" "POSITION r0 = 1" "POSITION r1 = 2" "POSITION r2 = 3"
proof -
  from assms have "length rs = 3" using length_map[of POSITION rs] by simp
  then obtain r0 r1 r2 where rs: "rs = [r0, r1, r2]"
    by (auto simp: length_Suc_conv numeral_3_eq_3)
  with assms have "POSITION r0 = 1" "POSITION r1 = 2" "POSITION r2 = 3" by simp_all
  with rs show thesis by (rule that)
qed

lemma deltas_of_three:
  assumes "rs = [r0, r1, r2]" and "distinct (map R_TEAM_ID rs)"
  shows "mset (map snd (deltas_of fee rs))
           = {#PRIZE_USD r0 - fee, PRIZE_USD r1 - fee, PRIZE_USD r2 - fee#}"
    and "map_of (deltas_of fee rs) (R_TEAM_ID r0) = Some (PRIZE_USD r0 - fee)"
    and "map_of (deltas_of fee rs) (R_TEAM_ID r1) = Some (PRIZE_USD r1 - fee)"
    and "map_of (deltas_of fee rs) (R_TEAM_ID r2) = Some (PRIZE_USD r2 - fee)"
proof -
  let ?h = "\<lambda>tid. sum_list (map PRIZE_USD (group_rows rs tid))
                       - of_nat (length (group_rows rs tid)) * fee"
  have d: "R_TEAM_ID r0 \<noteq> R_TEAM_ID r1" "R_TEAM_ID r0 \<noteq> R_TEAM_ID r2"
    "R_TEAM_ID r1 \<noteq> R_TEAM_ID r2"
    using assms by auto
  have h0: "?h (R_TEAM_ID r0) = PRIZE_USD r0 - fee"
    and h1: "?h (R_TEAM_ID r1) = PRIZE_USD r1 - fee"
    and h2: "?h (R_TEAM_ID r2) = PRIZE_USD r2 - fee"
    using d by (auto simp: group_rows_def assms(1))
  have gk: "mset (group_keys rs) = {#R_TEAM_ID r0, R_TEAM_ID r1, R_TEAM_ID r2#}"
    using d by (simp add: group_keys_def assms(1))
  have "map snd (deltas_of fee rs) = map ?h (group_keys rs)"
    by (simp add: deltas_of_eq comp_def)
  then have "mset (map snd (deltas_of fee rs)) = image_mset ?h (mset (group_keys rs))"
    by (simp only: mset_map)
  then have "mset (map snd (deltas_of fee rs))
      = image_mset ?h {#R_TEAM_ID r0, R_TEAM_ID r1, R_TEAM_ID r2#}"
    by (simp only: gk)
  then show "mset (map snd (deltas_of fee rs))
           = {#PRIZE_USD r0 - fee, PRIZE_USD r1 - fee, PRIZE_USD r2 - fee#}"
    by (simp only: image_mset_add_mset image_mset_empty h0 h1 h2)
  show "map_of (deltas_of fee rs) (R_TEAM_ID r0) = Some (PRIZE_USD r0 - fee)"
    using h0 by (simp add: map_of_deltas_of assms(1))
  show "map_of (deltas_of fee rs) (R_TEAM_ID r1) = Some (PRIZE_USD r1 - fee)"
    using h1 by (simp add: map_of_deltas_of assms(1))
  show "map_of (deltas_of fee rs) (R_TEAM_ID r2) = Some (PRIZE_USD r2 - fee)"
    using h2 by (simp add: map_of_deltas_of assms(1))
qed

subsection \<open>The concrete races\<close>

lemmas simulate_defs = simulate_def simulate_entry_def effective_speed_def draw_def
  accel_factor_def handling_factor_def py_round_def round_half_even_def rank_def Let_def

lemma ranked3_eq:
  "ranked3 =
     [\<lparr>R_CAR_ID = 3, R_CAR_NAME = ''Thunder'', R_TEAM_ID = 3, R_TEAM_NAME = ''Charlie'',
        AVG_SPEED_KMH = 10789 / 50, FINISH_TIME_MIN = 13903 / 500, POSITION = 1, PRIZE_USD = 0\<rparr>,
      \<lparr>R_CAR_ID = 1, R_CAR_NAME = ''Lightning X'', R_TEAM_ID = 1, R_TEAM_NAME = ''Alpha'',
        AVG_SPEED_KMH = 20139 / 100, FINISH_TIME_MIN = 3724 / 125, POSITION = 2, PRIZE_USD = 0\<rparr>,
      \<lparr>R_CAR_ID = 2, R_CAR_NAME = ''Lightning Y'', R_TEAM_ID = 2, R_TEAM_NAME = ''Bravo'',
        AVG_SPEED_KMH = 20139 / 100, FINISH_TIME_MIN = 3724 / 125, POSITION = 3, PRIZE_USD = 0\<rparr>]"
  by (simp add: ranked3_def simulate_defs entry_a_def entry_b_def entry_c_def steady_rng_def)

lemma ranked4_eq:
  "ranked4 =
     [\<lparr>R_CAR_ID = 3, R_CAR_NAME = ''Thunder'', R_TEAM_ID = 3, R_TEAM_NAME = ''Charlie'',
        AVG_SPEED_KMH = 10789 / 50, FINISH_TIME_MIN = 13903 / 500, POSITION = 1, PRIZE_USD = 0\<rparr>,
      \<lparr>R_CAR_ID = 1, R_CAR_NAME = ''Lightning X'', R_TEAM_ID = 1, R_TEAM_NAME = ''Alpha'',
        AVG_SPEED_KMH = 20139 / 100, FINISH_TIME_MIN = 3724 / 125, POSITION = 2, PRIZE_USD = 0\<rparr>,
      \<lparr>R_CAR_ID = 2, R_CAR_NAME = ''Lightning Y'', R_TEAM_ID = 2, R_TEAM_NAME = ''Bravo'',
        AVG_SPEED_KMH = 20139 / 100, FINISH_TIME_MIN = 3724 / 125, POSITION = 3, PRIZE_USD = 0\<rparr>,
      \<lparr>R_CAR_ID = 4, R_CAR_NAME = ''Breeze'', R_TEAM_ID = 1, R_TEAM_NAME = ''Alpha'',
        AVG_SPEED_KMH = 8991 / 50, FINISH_TIME_MIN = 33367 / 1000, POSITION = 4, PRIZE_USD = 0\<rparr>]"
  by (simp add: ranked4_def simulate_defs entry_a_def entry_b_def entry_c_def entry_d_def
      steady_rng_def)

lemmas allocate_defs = prize_split_def prizes_of_def prize_for_def py_index_def py_round_def
  round_half_even_def

lemma paid3_eq:
  "paid3 =
     [\<lparr>R_CAR_ID = 3, R_CAR_NAME = ''Thunder'', R_TEAM_ID = 3, R_TEAM_NAME = ''Charlie'',
        AVG_SPEED_KMH = 10789 / 50, FINISH_TIME_MIN = 13903 / 500, POSITION = 1, PRIZE_USD = 6000\<rparr>,
      \<lparr>R_CAR_ID = 1, R_CAR_NAME = ''Lightning X'', R_TEAM_ID = 1, R_TEAM_NAME = ''Alpha'',
        AVG_SPEED_KMH = 20139 / 100, FINISH_TIME_MIN = 3724 / 125, POSITION = 2, PRIZE_USD = 3000\<rparr>,
      \<lparr>R_CAR_ID = 2, R_CAR_NAME = ''Lightning Y'', R_TEAM_ID = 2, R_TEAM_NAME = ''Bravo'',
        AVG_SPEED_KMH = 20139 / 100, FINISH_TIME_MIN = 3724 / 125, POSITION = 3, PRIZE_USD = 1000\<rparr>]"
  by (simp add: paid3_def ranked3_eq allocate_defs)

lemma paid4_eq:
  "paid4 =
     [\<lparr>R_CAR_ID = 3, R_CAR_NAME = ''Thunder'', R_TEAM_ID = 3, R_TEAM_NAME = ''Charlie'',
        AVG_SPEED_KMH = 10789 / 50, FINISH_TIME_MIN = 13903 / 500, POSITION = 1, PRIZE_USD = 6000\<rparr>,
      \<lparr>R_CAR_ID = 1, R_CAR_NAME = ''Lightning X'', R_TEAM_ID = 1, R_TEAM_NAME = ''Alpha'',
        AVG_SPEED_KMH = 20139 / 100, FINISH_TIME_MIN = 3724 / 125, POSITION = 2, PRIZE_USD = 3000\<rparr>,
      \<lparr>R_CAR_ID = 2, R_CAR_NAME = ''Lightning Y'', R_TEAM_ID = 2, R_TEAM_NAME = ''Bravo'',
        AVG_SPEED_KMH = 20139 / 100, FINISH_TIME_MIN = 3724 / 125, POSITION = 3, PRIZE_USD = 1000\<rparr>,
      \<lparr>R_CAR_ID = 4, R_CAR_NAME = ''Breeze'', R_TEAM_ID = 1, R_TEAM_NAME = ''Alpha'',
        AVG_SPEED_KMH = 8991 / 50, FINISH_TIME_MIN = 33367 / 1000, POSITION = 4, PRIZE_USD = 0\<rparr>]"
  by (simp add: paid4_def ranked4_eq allocate_defs)

lemma deltas_paid4: "deltas_of 1000 paid4 = [(1, 1000), (2, 0), (3, 5000)]"
  by (simp add: deltas_of_eq group_keys_def group_rows_def paid4_eq)

lemma deltas_paid3: "deltas_of 1000 paid3 = [(1, 2000), (2, 0), (3, 5000)]"
  by (simp add: deltas_of_eq group_keys_def group_rows_def paid3_eq)

lemma length_settlement_stmts:
  "length (settlement_stmts race_uid track distance fee prize_pool results)
     = 3 + length results + length (deltas_of fee results)"
  by (simp add: settlement_stmts_def)

lemma select_demo_db3: "select_cars_join_teams demo_db3 = [entry_a, entry_b, entry_c]"
  by (simp add: select_cars_join_teams_def demo_db3_def demo_db_def demo_teams_def
      car_of_entry_def join_row_def entry_a_def entry_b_def entry_c_def)

lemma select_idle_db: "select_cars_join_teams idle_db = []"
  by (simp add: select_cars_join_teams_def idle_db_def demo_db_def demo_teams_def spare_car_def)

lemma allocate_ranked3: "allocate (prizes_of 10000 prize_split) ranked3 = Inr paid3"
proof -
  have "\<not> isl (allocate (prizes_of 10000 prize_split) ranked3)"
    by (simp add: ranked3_eq allocate_defs)
  then show ?thesis by (cases "allocate (prizes_of 10000 prize_split) ranked3") (simp_all add: paid3_def)
qed

lemma start_race_demo_db3:
  "start_race ''Riga Street Circuit'' 100 1000 10000 ''uid'' (sound_conn demo_db3) steady_rng =
     (Inr paid3,
      (fold exec (settlement_stmts ''uid'' ''Riga Street Circuit'' 100 1000 10000 paid3)
         (sound_conn demo_db3))\<lparr>issued := 10\<rparr>,
      snd (simulate 100 [entry_a, entry_b, entry_c] steady_rng))"
proof -
  have ne: "select_cars_join_teams (store (sound_conn demo_db3)) \<noteq> []"
    by (simp add: sound_conn_def select_demo_db3)
  have nf: "\<forall>n. \<not> fault (sound_conn demo_db3) n" by (simp add: sound_conn_def)
  have st: "store (sound_conn demo_db3) = demo_db3" "issued (sound_conn demo_db3) = 0"
    by (simp_all add: sound_conn_def)
  have n: "length (settlement_stmts ''uid'' ''Riga Street Circuit'' 100 1000 10000 paid3) = 9"
    by (simp add: length_settlement_stmts deltas_paid3) (simp add: paid3_eq)
  show ?thesis
    using start_race_success[OF ne nf, of "''Riga Street Circuit''" 100 1000 10000 "''uid''" steady_rng]
    by (simp add: st select_demo_db3 ranked3_def[symmetric] paid3_def[symmetric] n)
qed

lemma budgets_demo_db3:
  "map BUDGET (teams (store (fst (snd
     (start_race ''Riga Street Circuit'' 100 1000 10000 ''uid'' (sound_conn demo_db3) steady_rng)))))
   = [12000, 10000, 15000, 10000]"
  by (simp add: start_race_demo_db3 fold_exec_settlement deltas_paid3)
     (simp add: sound_conn_def demo_db3_def demo_db_def demo_teams_def add_budget_def)

lemma select_stalled_db:
  "select_cars_join_teams stalled_db = [entry_a\<lparr>E_TOP_SPEED_KMH := 0\<rparr>]"
  by (simp add: select_cars_join_teams_def stalled_db_def demo_db_def demo_teams_def
      car_of_entry_def join_row_def entry_a_def)

lemma simulate_stalled:
  "simulate 100 [entry_a\<lparr>E_TOP_SPEED_KMH := 0\<rparr>] steady_rng =
     ([\<lparr>R_CAR_ID = 1, R_CAR_NAME = ''Lightning X'', R_TEAM_ID = 1, R_TEAM_NAME = ''Alpha'',
        AVG_SPEED_KMH = 60, FINISH_TIME_MIN = 100, POSITION = 1, PRIZE_USD = 0\<rparr>],
      steady_rng\<lparr>consumed := 2\<rparr>)"
  by (simp add: simulate_defs entry_a_def steady_rng_def)

lemma start_race_stalled:
  "start_race ''Riga Street Circuit'' 100 1000 10000 ''uid'' (sound_conn stalled_db) steady_rng =
     (Inr [\<lparr>R_CAR_ID = 1, R_CAR_NAME = ''Lightning X'', R_TEAM_ID = 1, R_TEAM_NAME = ''Alpha'',
        AVG_SPEED_KMH = 60, FINISH_TIME_MIN = 100, POSITION = 1, PRIZE_USD = 6000\<rparr>],
      (fold exec (settlement_stmts ''uid'' ''Riga Street Circuit'' 100 1000 10000
         [\<lparr>R_CAR_ID = 1, R_CAR_NAME = ''Lightning X'', R_TEAM_ID = 1, R_TEAM_NAME = ''Alpha'',
        AVG_SPEED_KMH = 60, FINISH_TIME_MIN = 100, POSITION = 1, PRIZE_USD = 6000\<rparr>])
         (sound_conn stalled_db))\<lparr>issued := 6\<rparr>,
      steady_rng\<lparr>consumed := 2\<rparr>)"
proof -
  have ne: "select_cars_join_teams (store (sound_conn stalled_db)) \<noteq> []"
    by (simp add: sound_conn_def select_stalled_db)
  have nf: "\<forall>n. \<not> fault (sound_conn stalled_db) n" by (simp add: sound_conn_def)
  have st: "store (sound_conn stalled_db) = stalled_db" "issued (sound_conn stalled_db) = 0"
    by (simp_all add: sound_conn_def)
  show ?thesis
    using start_race_success[OF ne nf, of "''Riga Street Circuit''" 100 1000 10000 "''uid''" steady_rng]
    by (simp add: st select_stalled_db simulate_stalled allocate_defs length_settlement_stmts
        deltas_of_eq group_keys_def)
qed

lemma ranked_close_eq:
  "ranked_close =
     [\<lparr>R_CAR_ID = 1, R_CAR_NAME = ''Lightning X'', R_TEAM_ID = 1, R_TEAM_NAME = ''Alpha'',
        AVG_SPEED_KMH = 20139 / 100, FINISH_TIME_MIN = 3724 / 125, POSITION = 1, PRIZE_USD = 0\<rparr>,
      \<lparr>R_CAR_ID = 2, R_CAR_NAME = ''Lightning Y'', R_TEAM_ID = 2, R_TEAM_NAME = ''Bravo'',
        AVG_SPEED_KMH = 20139 / 100, FINISH_TIME_MIN = 3724 / 125, POSITION = 2, PRIZE_USD = 0\<rparr>]"
  by (simp add: ranked_close_def simulate_defs entry_a_def entry_b_def close_rng_def)

lemma close_speeds:
  "fst (effective_speed 280 (36 / 10) (92 / 100) 88 close_rng) = 314678 / 15625 * 10"
  "fst (effective_speed 280 (36 / 10) (92 / 100) 88 (close_rng\<lparr>consumed := 2\<rparr>))
     = 314678 / 15625 * 10 * (1000001 / 1000000)"
  by (simp_all add: effective_speed_def draw_def accel_factor_def handling_factor_def Let_def
      close_rng_def)

section \<open>Claims\<close>

text \<open>
  C3 (amended). Whatever the attributes and whatever the generator returns, the effective
  speed is at least 60; it is at most the top speed whenever the top speed is at least
  60, and it is exactly 60 when the top speed is below 60. The clamp
  \<^verbatim>\<open>max(60.0, min(effective_speed, top))\<close> puts the floor last, so a car rated below 60
  km/h is given 60.
\<close>

theorem effective_speed_clamped:
  "60 \<le> fst (effective_speed top_speed accel rel hand g) \<and>
   (60 \<le> top_speed \<longrightarrow> fst (effective_speed top_speed accel rel hand g) \<le> top_speed) \<and>
   (top_speed < 60 \<longrightarrow> fst (effective_speed top_speed accel rel hand g) = 60)"
  by (auto simp: effective_speed_def Let_def split: prod.splits)

text \<open>A car with top speed 280 and reliability 0: the breakdown branch is taken (three
  values are drawn) and the speed stays within 60 and 280.\<close>

theorem effective_speed_clamped_witness:
  "(60::rat) \<le> 280
   \<and> 60 \<le> fst (effective_speed 280 (36 / 10) 0 88 breakdown_rng)
   \<and> fst (effective_speed 280 (36 / 10) 0 88 breakdown_rng) \<le> 280
   \<and> consumed (snd (effective_speed 280 (36 / 10) 0 88 breakdown_rng)) = 3
   \<and> (40::rat) < 60
   \<and> fst (effective_speed 40 (36 / 10) 0 88 breakdown_rng) = 60"
  using effective_speed_clamped[of 280 "36 / 10" 0 88 breakdown_rng]
    effective_speed_clamped[of 40 "36 / 10" 0 88 breakdown_rng]
  by (simp add: effective_speed_def breakdown_rng_def draw_def accel_factor_def
      handling_factor_def Let_def)

text \<open>C3 as stated fails: a positive top speed of 50 and reliability 0 give the speed 60,
  above the top speed.\<close>

theorem effective_speed_above_top_speed:
  "(0::rat) < 50 \<and> \<not> (fst (effective_speed 50 (36 / 10) 0 88 breakdown_rng) \<le> 50)"
  by (simp add: effective_speed_def breakdown_rng_def draw_def accel_factor_def
      handling_factor_def Let_def)

text \<open>
  C4 (amended). For every list of N rows, \<open>simulate\<close> returns N results, one per row;
  their positions are 1, ..., N in list order; the finish times ascend along the list;
  a result with a smaller position never has a greater finish time, and a result with
  a strictly smaller finish time has the smaller position. Equal finish times do not
  give equal positions, so "smaller position if and only if finish time not greater"
  holds only in the directions stated here.
\<close>

theorem simulate_positions_follow_times:
  fixes distance :: rat and rows :: "entry list" and g :: rng
  defines "rs \<equiv> fst (simulate distance rows g)"
  shows "length rs = length rows
     \<and> map POSITION rs = map int [1..<Suc (length rows)]
     \<and> mset (map R_CAR_ID rs) = mset (map E_CAR_ID rows)
     \<and> sorted (map FINISH_TIME_MIN rs)
     \<and> (\<forall>i < length rs. \<forall>j < length rs.
           (POSITION (rs ! i) < POSITION (rs ! j)
              \<longrightarrow> FINISH_TIME_MIN (rs ! i) \<le> FINISH_TIME_MIN (rs ! j))
         \<and> (FINISH_TIME_MIN (rs ! i) < FINISH_TIME_MIN (rs ! j)
              \<longrightarrow> POSITION (rs ! i) < POSITION (rs ! j)))"
proof -
  let ?rs0 = "fst (simulate_loop distance rows g)"
  have rs: "rs = rank ?rs0" by (simp add: rs_def fst_simulate)
  have len: "length rs = length rows" by (simp add: rs)
  have pos: "map POSITION rs = map int [1..<Suc (length rs)]"
    by (simp only: rs map_POSITION_rank length_rank)
  have ms: "mset (map R_CAR_ID rs) = mset (map E_CAR_ID rows)"
    by (simp only: rs mset_R_CAR_ID_rank map_R_CAR_ID_simulate_loop)
  have srt: "sorted (map FINISH_TIME_MIN rs)"
    by (simp only: rs sorted_FINISH_TIME_rank)
  have ord: "\<forall>i < length rs. \<forall>j < length rs.
           (POSITION (rs ! i) < POSITION (rs ! j)
              \<longrightarrow> FINISH_TIME_MIN (rs ! i) \<le> FINISH_TIME_MIN (rs ! j))
         \<and> (FINISH_TIME_MIN (rs ! i) < FINISH_TIME_MIN (rs ! j)
              \<longrightarrow> POSITION (rs ! i) < POSITION (rs ! j))"
  proof (intro allI impI conjI)
    fix i j assume i: "i < length rs" and j: "j < length rs"
    have pi: "POSITION (rs ! i) = int i + 1" using pos i by (rule nth_POSITION_ranked)
    have pj: "POSITION (rs ! j) = int j + 1" using pos j by (rule nth_POSITION_ranked)
    {
      assume "POSITION (rs ! i) < POSITION (rs ! j)"
      with pi pj have "i \<le> j" by simp
      with srt j have "map FINISH_TIME_MIN rs ! i \<le> map FINISH_TIME_MIN rs ! j"
        by (simp add: sorted_iff_nth_mono del: nth_map)
      with i j show "FINISH_TIME_MIN (rs ! i) \<le> FINISH_TIME_MIN (rs ! j)" by simp
    }
    {
      assume lt: "FINISH_TIME_MIN (rs ! i) < FINISH_TIME_MIN (rs ! j)"
      have "i < j"
      proof (rule ccontr)
        assume "\<not> i < j"
        then have "j \<le> i" by simp
        with srt i have "map FINISH_TIME_MIN rs ! j \<le> map FINISH_TIME_MIN rs ! i"
          by (simp add: sorted_iff_nth_mono del: nth_map)
        with i j lt show False by simp
      qed
      with pi pj show "POSITION (rs ! i) < POSITION (rs ! j)" by simp
    }
  qed
  show ?thesis using len pos ms srt ord by simp
qed

text \<open>The race of three rows: car 3 is first, the equal cars 1 and 2 follow with one
  finish time and the positions 2 and 3.\<close>

theorem simulate_positions_follow_times_witness:
  "length ranked3 = 3
   \<and> map POSITION ranked3 = [1, 2, 3]
   \<and> map R_CAR_ID ranked3 = [3, 1, 2]
   \<and> map FINISH_TIME_MIN ranked3 = [13903 / 500, 3724 / 125, 3724 / 125]
   \<and> POSITION (ranked3 ! 0) < POSITION (ranked3 ! 1)
   \<and> FINISH_TIME_MIN (ranked3 ! 0) < FINISH_TIME_MIN (ranked3 ! 1)
   \<and> sorted (map FINISH_TIME_MIN ranked3)"
  using simulate_positions_follow_times[of 100 "[entry_a, entry_b, entry_c]" steady_rng]
  by (simp add: ranked3_def[symmetric]) (simp add: ranked3_eq)

text \<open>C4 as stated fails on the two equal cars of the race of three: car 2 (index 2) has a
  finish time not greater than that of car 1 (index 1), and not the smaller position.\<close>

theorem simulate_tie_breaks_iff:
  "R_CAR_ID (ranked3 ! 2) \<noteq> R_CAR_ID (ranked3 ! 1)
   \<and> \<not> (POSITION (ranked3 ! 2) < POSITION (ranked3 ! 1)
          \<longleftrightarrow> FINISH_TIME_MIN (ranked3 ! 2) \<le> FINISH_TIME_MIN (ranked3 ! 1))"
  by (simp add: ranked3_eq)



text \<open>
  C6 (amended). For a ranked list (positions 1, ..., N in order), a non-negative prize
  pool and a split curve of non-negative fractions summing to at most 1, \<open>allocate\<close>
  succeeds, every prize is non-negative, and the prizes sum to at most the pool plus
  half a cent for each paid position (the smaller of N and the length of the curve):
  each payout is rounded to the nearest cent on its own.
\<close>

theorem allocate_nonneg_and_bounded:
  assumes "0 \<le> prize_pool" and "\<forall>p \<in> set split. 0 \<le> p" and "sum_list split \<le> 1"
    and "map POSITION rs = map int [1..<Suc (length rs)]"
  shows "\<exists>rs'. allocate (prizes_of prize_pool split) rs = Inr rs'
           \<and> (\<forall>r \<in> set rs'. 0 \<le> PRIZE_USD r)
           \<and> sum_list (map PRIZE_USD rs')
               \<le> prize_pool + of_nat (min (length rs) (length split)) / 200"
proof -
  let ?prizes = "prizes_of prize_pool split"
  let ?rs' = "map (\<lambda>r. r\<lparr>PRIZE_USD := (if POSITION r \<le> int (length ?prizes)
                                      then ?prizes ! nat (POSITION r - 1) else 0)\<rparr>) rs"
  have pos: "\<forall>r \<in> set rs. 1 \<le> POSITION r"
    using assms(4) by (rule ranked_positions_ge_1)
  then have ok: "allocate ?prizes rs = Inr ?rs'"
    by (rule allocate_ok)
  have nn: "\<forall>x \<in> set ?prizes. 0 \<le> x"
    using assms(1,2) by (rule prizes_of_nonneg)
  have "\<forall>r \<in> set ?rs'. 0 \<le> PRIZE_USD r"
  proof
    fix r assume "r \<in> set ?rs'"
    then obtain r0 where r0: "r0 \<in> set rs"
      and r: "r = r0\<lparr>PRIZE_USD := (if POSITION r0 \<le> int (length ?prizes)
                                      then ?prizes ! nat (POSITION r0 - 1) else 0)\<rparr>"
      by auto
    show "0 \<le> PRIZE_USD r"
    proof (cases "POSITION r0 \<le> int (length ?prizes)")
      case True
      with pos r0 have "nat (POSITION r0 - 1) < length ?prizes" by fastforce
      then have "?prizes ! nat (POSITION r0 - 1) \<in> set ?prizes" by (rule nth_mem)
      with nn True r show ?thesis by simp
    next
      case False
      with r show ?thesis by simp
    qed
  qed
  moreover have "sum_list (map PRIZE_USD ?rs')
               \<le> prize_pool + of_nat (min (length rs) (length split)) / 200"
    by (simp only: map_PRIZE_USD_allocated[OF assms(4)] sum_list_nth_take
          sum_prizes_of_take_le[OF assms(1,2,3)])
  ultimately show ?thesis using ok by blast
qed

text \<open>The race of four with a pool of 10000 and the curve of the source.\<close>

theorem allocate_nonneg_and_bounded_witness:
  "(0::rat) \<le> 10000
   \<and> sum_list prize_split \<le> 1
   \<and> map POSITION ranked4 = map int [1..<Suc (length ranked4)]
   \<and> sum_list (map PRIZE_USD (projr (allocate (prizes_of 10000 prize_split) ranked4))) = 10000
   \<and> (10000::rat) \<le> 10000 + of_nat (min (length ranked4) (length prize_split)) / 200"
proof -
  have nn: "\<forall>p \<in> set prize_split. 0 \<le> p" by (simp add: prize_split_def)
  have le: "sum_list prize_split \<le> 1" by (simp add: prize_split_def)
  have pos: "map POSITION ranked4 = map int [1..<Suc (length ranked4)]"
    by (simp add: ranked4_eq)
  have ev: "map PRIZE_USD (projr (allocate (prizes_of 10000 prize_split) ranked4))
      = [6000, 3000, 1000, 0]"
    by (simp add: ranked4_eq prize_split_def prizes_of_def prize_for_def py_index_def
        py_round_def round_half_even_def)
  show ?thesis
    using allocate_nonneg_and_bounded[of 10000 prize_split ranked4, OF _ nn le pos] le pos
    by (simp add: ev)
qed

text \<open>C6 as stated fails: with a pool of 0.06 the three payouts 0.036, 0.018 and 0.006
  are rounded to 0.04, 0.02 and 0.01, which sum to 0.07.\<close>

theorem allocate_exceeds_pool:
  "(0::rat) \<le> 6 / 100
   \<and> sum_list prize_split \<le> 1
   \<and> map PRIZE_USD (projr (allocate (prizes_of (6 / 100) prize_split) ranked3))
       = [4 / 100, 2 / 100, 1 / 100]
   \<and> \<not> (sum_list (map PRIZE_USD (projr (allocate (prizes_of (6 / 100) prize_split) ranked3)))
          \<le> 6 / 100)"
  by (simp add: ranked3_eq prize_split_def prizes_of_def prize_for_def py_index_def
      py_round_def round_half_even_def)









text \<open>
  C8. When no car of the store is assigned to a team of the store and the read succeeds,
  the block reports that there are no eligible participants (\<open>No cars assigned to
  teams.\<close>) and returns no results; the store, the transaction state and the generator
  are as before; only the read was issued.
\<close>

theorem start_race_no_cars:
  assumes "\<forall>car \<in> set (cars (store c)). \<forall>t \<in> set (teams (store c)).
             CAR_TEAM_ID car \<noteq> Some (TEAM_ID t)"
    and "\<not> fault c (issued c)"
  shows "start_race track distance fee prize_pool race_uid c g =
           (Inl NoEligibleParticipants, c\<lparr>issued := Suc (issued c)\<rparr>, g)"
proof -
  have "select_cars_join_teams (store c) = []"
    using assms(1) by (simp only: select_nonempty_iff)
  then show ?thesis using assms(2) by (simp add: start_race_def run_select_def)
qed

text \<open>The store whose only car is unassigned.\<close>

theorem start_race_no_cars_witness:
  "map CAR_TEAM_ID (cars idle_db) = [None]
   \<and> \<not> fault (sound_conn idle_db) (issued (sound_conn idle_db))
   \<and> fst (start_race ''Riga Street Circuit'' 100 1000 10000 ''uid'' (sound_conn idle_db) steady_rng)
       = Inl NoEligibleParticipants
   \<and> store (fst (snd (start_race ''Riga Street Circuit'' 100 1000 10000 ''uid''
         (sound_conn idle_db) steady_rng))) = idle_db
   \<and> snapshot (fst (snd (start_race ''Riga Street Circuit'' 100 1000 10000 ''uid''
         (sound_conn idle_db) steady_rng))) = None
   \<and> snd (snd (start_race ''Riga Street Circuit'' 100 1000 10000 ''uid''
         (sound_conn idle_db) steady_rng)) = steady_rng"
proof -
  have cs: "map CAR_TEAM_ID (cars idle_db) = [None]"
    by (simp add: idle_db_def demo_db_def spare_car_def)
  have un: "\<forall>car \<in> set (cars (store (sound_conn idle_db))).
      \<forall>t \<in> set (teams (store (sound_conn idle_db))). CAR_TEAM_ID car \<noteq> Some (TEAM_ID t)"
    by (simp add: sound_conn_def idle_db_def demo_db_def spare_car_def)
  have nf: "\<not> fault (sound_conn idle_db) (issued (sound_conn idle_db))"
    by (simp add: sound_conn_def)
  show ?thesis
    using start_race_no_cars[OF un nf, of "''Riga Street Circuit''" 100 1000 10000 "''uid''"
        steady_rng] cs nf
    by (simp add: sound_conn_def)
qed

text \<open>
  C9 (amended). The block checks no attribute and no race parameter, and it has no
  invalid-attribute report: whatever the values of the attributes, the distance, the fee
  and the prize pool, when the JOIN gives at least one row and no statement raises, the
  block returns one result per row, has drawn at least two random values per row, and
  has written the race row. The only rejection before the simulation is the empty JOIN.
\<close>

theorem start_race_no_validation:
  assumes "select_cars_join_teams (store c) \<noteq> []" and "\<forall>n. \<not> fault c n"
  shows "(\<exists>results. fst (start_race track distance fee prize_pool race_uid c g) = Inr results
            \<and> length results = length (select_cars_join_teams (store c)))
       \<and> races (store (fst (snd (start_race track distance fee prize_pool race_uid c g))))
           = races (store c) @
               [\<lparr>RACE_UID = race_uid, TRACK_NAME = track, DISTANCE_KM = distance,
                 FEE_USD = fee, PRIZE_POOL_USD = prize_pool\<rparr>]
       \<and> consumed g + 2 * length (select_cars_join_teams (store c))
           \<le> consumed (snd (snd (start_race track distance fee prize_pool race_uid c g)))"
proof -
  let ?rows = "select_cars_join_teams (store c)"
  let ?results = "projr (allocate (prizes_of prize_pool prize_split)
      (fst (simulate distance ?rows g)))"
  note s = start_race_success[OF assms, of track distance fee prize_pool race_uid g]
  have len: "length ?results = length ?rows"
    by (simp add: fst_simulate length_allocate_rank)
  have rng: "consumed g + 2 * length ?rows
      \<le> consumed (snd (simulate distance ?rows g))"
    by (simp only: snd_simulate consumed_simulate_loop)
  show ?thesis
    using len rng by (simp add: s fold_exec_settlement)
qed

text \<open>A store whose only car has top speed 0: the race is run at the floor speed of 60,
  two values are drawn, and the race is written.\<close>

theorem start_race_no_validation_witness:
  "select_cars_join_teams (store (sound_conn stalled_db)) \<noteq> []
   \<and> map E_TOP_SPEED_KMH (select_cars_join_teams (store (sound_conn stalled_db))) = [0]
   \<and> \<not> isl (fst (start_race ''Riga Street Circuit'' 100 1000 10000 ''uid''
         (sound_conn stalled_db) steady_rng))
   \<and> races (store (fst (snd (start_race ''Riga Street Circuit'' 100 1000 10000 ''uid''
         (sound_conn stalled_db) steady_rng))))
       = [\<lparr>RACE_UID = ''uid'', TRACK_NAME = ''Riga Street Circuit'', DISTANCE_KM = 100,
            FEE_USD = 1000, PRIZE_POOL_USD = 10000\<rparr>]
   \<and> 2 \<le> consumed (snd (snd (start_race ''Riga Street Circuit'' 100 1000 10000 ''uid''
         (sound_conn stalled_db) steady_rng)))"
proof -
  have ne: "select_cars_join_teams (store (sound_conn stalled_db)) \<noteq> []"
    by (simp add: sound_conn_def select_stalled_db)
  have nf: "\<forall>n. \<not> fault (sound_conn stalled_db) n" by (simp add: sound_conn_def)
  have tp: "map E_TOP_SPEED_KMH (select_cars_join_teams (store (sound_conn stalled_db))) = [0]"
    by (simp add: sound_conn_def select_stalled_db)
  have r0: "races (store (sound_conn stalled_db)) = []"
    by (simp add: sound_conn_def stalled_db_def demo_db_def)
  have l: "length (select_cars_join_teams (store (sound_conn stalled_db))) = 1"
    by (simp add: sound_conn_def select_stalled_db)
  have c0: "consumed steady_rng = 0" by (simp add: steady_rng_def)
  note t = start_race_no_validation[OF ne nf, of "''Riga Street Circuit''" 100 1000 10000 "''uid''"
      steady_rng, unfolded r0 l c0]
  from t have a: "\<not> isl (fst (start_race ''Riga Street Circuit'' 100 1000 10000 ''uid''
         (sound_conn stalled_db) steady_rng))" by auto
  from t have b: "races (store (fst (snd (start_race ''Riga Street Circuit'' 100 1000 10000 ''uid''
         (sound_conn stalled_db) steady_rng))))
       = [\<lparr>RACE_UID = ''uid'', TRACK_NAME = ''Riga Street Circuit'', DISTANCE_KM = 100,
            FEE_USD = 1000, PRIZE_POOL_USD = 10000\<rparr>]" by simp
  from t have c: "2 \<le> consumed (snd (snd (start_race ''Riga Street Circuit'' 100 1000 10000 ''uid''
         (sound_conn stalled_db) steady_rng)))" by simp
  from ne tp a b c show ?thesis by (intro conjI)
qed

text \<open>C9 as stated fails on that store: the top speed 0 is not rejected; the run succeeds,
  consumes randomness and changes the store.\<close>

theorem start_race_accepts_invalid:
  "map TOP_SPEED_KMH (cars stalled_db) = [0]
   \<and> fst (start_race ''Riga Street Circuit'' 100 1000 10000 ''uid'' (sound_conn stalled_db)
          steady_rng)
       = Inr [\<lparr>R_CAR_ID = 1, R_CAR_NAME = ''Lightning X'', R_TEAM_ID = 1, R_TEAM_NAME = ''Alpha'',
               AVG_SPEED_KMH = 60, FINISH_TIME_MIN = 100, POSITION = 1, PRIZE_USD = 6000\<rparr>]
   \<and> consumed steady_rng = 0
   \<and> consumed (snd (snd (start_race ''Riga Street Circuit'' 100 1000 10000 ''uid''
         (sound_conn stalled_db) steady_rng))) = 2
   \<and> races stalled_db = []
   \<and> length (races (store (fst (snd (start_race ''Riga Street Circuit'' 100 1000 10000 ''uid''
         (sound_conn stalled_db) steady_rng))))) = 1
   \<and> length (race_results (store (fst (snd (start_race ''Riga Street Circuit'' 100 1000 10000
         ''uid'' (sound_conn stalled_db) steady_rng))))) = 1
   \<and> map BUDGET (teams stalled_db) = [10000, 10000, 10000, 10000]
   \<and> map BUDGET (teams (store (fst (snd (start_race ''Riga Street Circuit'' 100 1000 10000
         ''uid'' (sound_conn stalled_db) steady_rng))))) = [15000, 10000, 10000, 10000]"
proof -
  have f1: "map TOP_SPEED_KMH (cars stalled_db) = [0]"
    by (simp add: stalled_db_def car_of_entry_def)
  have f2: "consumed steady_rng = 0" by (simp add: steady_rng_def)
  have f3: "races stalled_db = []" by (simp add: stalled_db_def demo_db_def)
  have f4: "map BUDGET (teams stalled_db) = [10000, 10000, 10000, 10000]"
    by (simp add: stalled_db_def demo_db_def demo_teams_def)
  have f5: "map BUDGET (teams (store (fst (snd (start_race ''Riga Street Circuit'' 100 1000 10000
         ''uid'' (sound_conn stalled_db) steady_rng))))) = [15000, 10000, 10000, 10000]"
    by (simp add: start_race_stalled fold_exec_settlement deltas_of_eq group_keys_def
        group_rows_def)
       (simp add: sound_conn_def stalled_db_def demo_db_def demo_teams_def add_budget_def)
  have f6: "length (races (store (fst (snd (start_race ''Riga Street Circuit'' 100 1000 10000 ''uid''
         (sound_conn stalled_db) steady_rng))))) = 1"
    by (simp add: start_race_stalled fold_exec_settlement) (simp add: sound_conn_def f3)
  have f7: "length (race_results (store (fst (snd (start_race ''Riga Street Circuit'' 100 1000 10000
         ''uid'' (sound_conn stalled_db) steady_rng))))) = 1"
    by (simp add: start_race_stalled fold_exec_settlement)
       (simp add: sound_conn_def stalled_db_def demo_db_def)
  have f8: "fst (start_race ''Riga Street Circuit'' 100 1000 10000 ''uid'' (sound_conn stalled_db)
          steady_rng)
       = Inr [\<lparr>R_CAR_ID = 1, R_CAR_NAME = ''Lightning X'', R_TEAM_ID = 1, R_TEAM_NAME = ''Alpha'',
               AVG_SPEED_KMH = 60, FINISH_TIME_MIN = 100, POSITION = 1, PRIZE_USD = 6000\<rparr>]"
    by (simp add: start_race_stalled)
  have f9: "consumed (snd (snd (start_race ''Riga Street Circuit'' 100 1000 10000 ''uid''
         (sound_conn stalled_db) steady_rng))) = 2"
    by (simp add: start_race_stalled)
  from f1 f8 f2 f9 f3 f6 f7 f4 f5 show ?thesis by (intro conjI)
qed

end
